theory Spec2Isabelle
  imports Main "HOL-Library.Word"
begin

unbundle bit_operations_syntax

section \<open>Permissions under a umask\<close>

text \<open>
  Go's \<^verbatim>\<open>os.FileMode\<close> is a \<^verbatim>\<open>uint32\<close>; the permission bits are its low twelve
  bits. Byte slices and Go strings are both modelled as \<^typ>\<open>string\<close> (a list of
  8-bit characters).
\<close>

type_synonym FileMode = "32 word"

text \<open>
  \<^verbatim>\<open>func umaskPermEqual(perm1, perm2, umask os.FileMode) bool {
      return perm1&^umask == perm2&^umask }\<close>
  Go's \<^verbatim>\<open>&^\<close> is AND NOT.
\<close>

definition umaskPermEqual :: "FileMode \<Rightarrow> FileMode \<Rightarrow> FileMode \<Rightarrow> bool" where
  "umaskPermEqual perm1 perm2 umask = (perm1 AND NOT umask = perm2 AND NOT umask)"

section \<open>Errors, lazy contents and the actual state\<close>

text \<open>
  Every Go \<^verbatim>\<open>error\<close> value the embedded code creates or passes on. \<open>Failure\<close>
  stands for any error of a collaborator (a backend call, a lazy producer, the JSON
  encoder, a read of standard input).
\<close>

datatype error =
    EOF
  | PasswordTooLong
  | CannotParse string
  | ErrTooLong
  | ErrExitCode int
  | NoDirPrefix string string
  | Unsupported string
  | Failure string

text \<open>
  Modelled from the spec: the types \<^verbatim>\<open>lazyContents\<close> and \<^verbatim>\<open>lazyLinkname\<close> are not
  in the source files. A lazy value memoises what its producer returned, so it is
  modelled by the results its accessors give on every call: \<^verbatim>\<open>Contents()\<close> and
  \<^verbatim>\<open>ContentsSHA256()\<close> (the hash may be known without the contents, so the two
  results are separate fields), and \<^verbatim>\<open>Linkname()\<close>.
\<close>

record lazyContents =
  Contents :: "error + string"
  ContentsSHA256 :: "error + string"

record lazyLinkname =
  Linkname :: "error + string"

text \<open>
  A lazy value whose hash is the hash \<open>H\<close> of its contents, and which fails as a
  whole when its producer fails.
\<close>

definition hashedBy :: "(string \<Rightarrow> string) \<Rightarrow> lazyContents \<Rightarrow> bool" where
  "hashedBy H lc = (ContentsSHA256 lc = map_sum id H (Contents lc))"

text \<open>
  Modelled from the spec: the actual state entries are not in the source files. The
  variant is the one of the spec's data model: absent, directory \<open>{path, perm}\<close>,
  file \<open>{path, perm, lazy contents}\<close>, symlink \<open>{path, lazy linkname}\<close>.
\<close>

datatype ActualStateEntry =
    ActualStateAbsent string
  | ActualStateDir string FileMode
  | ActualStateFile string FileMode lazyContents
  | ActualStateSymlink string lazyLinkname

fun Path :: "ActualStateEntry \<Rightarrow> string" where
  "Path (ActualStateAbsent p) = p"
| "Path (ActualStateDir p _) = p"
| "Path (ActualStateFile p _ _) = p"
| "Path (ActualStateSymlink p _) = p"

section \<open>The system backend\<close>

text \<open>
  The Go interface \<^verbatim>\<open>System\<close> is a record of operations over a backend state
  \<open>'s\<close>. A mutating operation returns its error (if any) and the state it leaves;
  the lookup in the persistent state returns the stored bytes, or \<open>None\<close> for Go's
  \<^verbatim>\<open>nil\<close>.
\<close>

record 's System =
  Chmod :: "string \<Rightarrow> FileMode \<Rightarrow> 's \<Rightarrow> error option \<times> 's"
  Mkdir :: "string \<Rightarrow> FileMode \<Rightarrow> 's \<Rightarrow> error option \<times> 's"
  PersistentStateGet :: "string \<Rightarrow> string \<Rightarrow> 's \<Rightarrow> error + string option"
  PersistentStateSet :: "string \<Rightarrow> string \<Rightarrow> string \<Rightarrow> 's \<Rightarrow> error option \<times> 's"
  RemoveAll :: "string \<Rightarrow> 's \<Rightarrow> error option \<times> 's"
  Rename :: "string \<Rightarrow> string \<Rightarrow> 's \<Rightarrow> error option \<times> 's"
  RunScript :: "string \<Rightarrow> string \<Rightarrow> string \<Rightarrow> 's \<Rightarrow> error option \<times> 's"
  WriteFile :: "string \<Rightarrow> string \<Rightarrow> FileMode \<Rightarrow> 's \<Rightarrow> error option \<times> 's"
  WriteSymlink :: "string \<Rightarrow> string \<Rightarrow> 's \<Rightarrow> error option \<times> 's"

text \<open>
  The calls a method issues to the backend, in the order it issues them. Every
  \<open>Apply\<close> below returns, with its error and the backend state it leaves, the list
  of the calls it made.
\<close>

datatype call =
    CallChmod string FileMode
  | CallMkdir string FileMode
  | CallGet string string
  | CallSet string string string
  | CallRemoveAll string
  | CallRename string string
  | CallRunScript string string string
  | CallWriteFile string string FileMode
  | CallWriteSymlink string string

type_synonym 's outcome = "error option \<times> 's \<times> call list"

definition succeed :: "'s \<Rightarrow> 's outcome" where
  "succeed s = (None, s, [])"

definition failWith :: "error \<Rightarrow> 's \<Rightarrow> 's outcome" where
  "failWith e s = (Some e, s, [])"

definition invoke :: "call \<Rightarrow> ('s \<Rightarrow> error option \<times> 's) \<Rightarrow> 's \<Rightarrow> 's outcome" where
  "invoke c f s = (case f s of (e, s') \<Rightarrow> (e, s', [c]))"

text \<open>Sequencing as Go's \<^verbatim>\<open>if err := f(); err != nil { return err }\<close> followed by \<open>g\<close>.\<close>

definition andThen :: "('s \<Rightarrow> 's outcome) \<Rightarrow> ('s \<Rightarrow> 's outcome) \<Rightarrow> 's \<Rightarrow> 's outcome" where
  "andThen f g s =
     (case f s of
        (Some e, s', cs) \<Rightarrow> (Some e, s', cs)
      | (None, s', cs) \<Rightarrow> (case g s' of (e, s'', cs') \<Rightarrow> (e, s'', cs @ cs')))"

text \<open>
  Modelled from the spec: \<^verbatim>\<open>ActualStateEntry.Remove\<close> is not in the source files. An
  absent entry has nothing to remove; every other entry is removed with
  \<^verbatim>\<open>RemoveAll\<close> at its path.
\<close>

definition Remove :: "'s System \<Rightarrow> ActualStateEntry \<Rightarrow> 's \<Rightarrow> 's outcome" where
  "Remove sys actualStateEntry =
     (case actualStateEntry of
        ActualStateAbsent _ \<Rightarrow> succeed
      | _ \<Rightarrow> invoke (CallRemoveAll (Path actualStateEntry)) (RemoveAll sys (Path actualStateEntry)))"

section \<open>Paths, hex encoding, empty scripts\<close>

text \<open>
  Go's \<^verbatim>\<open>path.Clean\<close>: the elements of the path between slashes, with empty
  elements and \<^verbatim>\<open>.\<close> dropped, and each \<^verbatim>\<open>..\<close> dropped together with the
  element before it (at the start of a rooted path a \<^verbatim>\<open>..\<close> is dropped alone, at the
  start of an unrooted path it is kept); the elements are joined by single slashes
  after the leading slash of a rooted path, and the empty result is \<^verbatim>\<open>.\<close>.
\<close>

fun splitSlash :: "string \<Rightarrow> string list" where
  "splitSlash [] = [[]]"
| "splitSlash (c # cs) =
     (if c = CHR ''/'' then [] # splitSlash cs
      else (case splitSlash cs of [] \<Rightarrow> [[c]] | e # es \<Rightarrow> (c # e) # es))"

fun cleanElems :: "bool \<Rightarrow> string list \<Rightarrow> string list \<Rightarrow> string list" where
  "cleanElems rooted kept [] = rev kept"
| "cleanElems rooted kept (e # es) =
     (if e = [] \<or> e = ''.'' then cleanElems rooted kept es
      else if e = ''..'' then
        (case kept of
           [] \<Rightarrow> if rooted then cleanElems rooted [] es else cleanElems rooted [e] es
         | k # ks \<Rightarrow> if k = ''..'' then cleanElems rooted (e # kept) es
                     else cleanElems rooted ks es)
      else cleanElems rooted (e # kept) es)"

fun joinSlash :: "string list \<Rightarrow> string" where
  "joinSlash [] = []"
| "joinSlash [e] = e"
| "joinSlash (e # e' # es) = e @ ''/'' @ joinSlash (e' # es)"

definition Clean :: "string \<Rightarrow> string" where
  "Clean p =
     (let rooted = (take 1 p = ''/'');
          out = (if rooted then ''/'' else []) @ joinSlash (cleanElems rooted [] (splitSlash p))
      in if out = [] then ''.'' else out)"

text \<open>
  Go's \<^verbatim>\<open>path.Dir\<close>: the path up to and including its last slash, cleaned. Go's
  \<^verbatim>\<open>path.Join\<close> of two elements: empty elements are ignored, the others are joined
  by a slash and the result is cleaned; two empty elements give the empty string.
\<close>

definition pathDir :: "string \<Rightarrow> string" where
  "pathDir p = Clean (rev (dropWhile (\<lambda>c. c \<noteq> CHR ''/'') (rev p)))"

definition pathJoin :: "string \<Rightarrow> string \<Rightarrow> string" where
  "pathJoin dir name =
     (if dir = [] \<and> name = [] then []
      else if dir = [] then Clean name
      else Clean (dir @ ''/'' @ name))"

text \<open>Go's \<^verbatim>\<open>hex.EncodeToString\<close>: two lowercase hexadecimal digits per byte.\<close>

definition hexDigit :: "nat \<Rightarrow> char" where
  "hexDigit n = ''0123456789abcdef'' ! (n mod 16)"

definition EncodeToString :: "string \<Rightarrow> string" where
  "EncodeToString bs =
     concat (map (\<lambda>c. [hexDigit (of_char c div 16), hexDigit (of_char c mod 16)]) bs)"

text \<open>
  Modelled from the spec: \<^verbatim>\<open>isEmpty\<close> is not in the source files; "all-whitespace
  counts as empty".
\<close>

definition isSpace :: "char \<Rightarrow> bool" where
  "isSpace c = (c \<in> set [CHR 0x09, CHR 0x0A, CHR 0x0B, CHR 0x0C, CHR 0x0D, CHR 0x20])"

definition isEmpty :: "string \<Rightarrow> bool" where
  "isEmpty contents = list_all isSpace contents"

section \<open>Target state entries\<close>

datatype TargetStateEntry =
    TargetStateAbsent
  | TargetStateDir FileMode
  | TargetStateFile lazyContents FileMode
  | TargetStatePresent lazyContents FileMode
  | TargetStateRenameDir string string
  | TargetStateScript lazyContents string bool
  | TargetStateSymlink lazyLinkname

text \<open>
  The script-once record, and what \<^verbatim>\<open>TargetStateScript.Apply\<close> takes from outside
  the backend: the clock (\<^verbatim>\<open>time.Now\<close>) and the JSON encoder (\<^verbatim>\<open>json.Marshal\<close>).
\<close>

record scriptOnceState =
  Name :: string
  RunAt :: nat

record Runtime =
  timeNow :: nat
  jsonMarshal :: "scriptOnceState \<Rightarrow> error + string"

text \<open>
  Modelled from the spec: the constant \<^verbatim>\<open>ScriptOnceStateBucket\<close> is not in the source
  files; the spec names the bucket "scriptOnceState".
\<close>

definition ScriptOnceStateBucket :: string where
  "ScriptOnceStateBucket = ''scriptOnceState''"

subsection \<open>Absent\<close>

definition TargetStateAbsent_Apply ::
  "'s System \<Rightarrow> ActualStateEntry \<Rightarrow> FileMode \<Rightarrow> 's \<Rightarrow> 's outcome" where
  "TargetStateAbsent_Apply sys actualStateEntry umask =
     (case actualStateEntry of
        ActualStateAbsent _ \<Rightarrow> succeed
      | _ \<Rightarrow> invoke (CallRemoveAll (Path actualStateEntry))
              (RemoveAll sys (Path actualStateEntry)))"

definition TargetStateAbsent_Equal :: "ActualStateEntry \<Rightarrow> FileMode \<Rightarrow> bool \<times> error option" where
  "TargetStateAbsent_Equal actualStateEntry umask =
     (case actualStateEntry of
        ActualStateAbsent _ \<Rightarrow> (True, None)
      | _ \<Rightarrow> (False, None))"

subsection \<open>Directory\<close>

definition TargetStateDir_Apply ::
  "'s System \<Rightarrow> FileMode \<Rightarrow> ActualStateEntry \<Rightarrow> FileMode \<Rightarrow> 's \<Rightarrow> 's outcome" where
  "TargetStateDir_Apply sys perm actualStateEntry umask =
     (case actualStateEntry of
        ActualStateDir path actualPerm \<Rightarrow>
          if umaskPermEqual actualPerm perm umask then succeed
          else invoke (CallChmod path perm) (Chmod sys path perm)
      | _ \<Rightarrow>
          andThen (Remove sys actualStateEntry)
            (invoke (CallMkdir (Path actualStateEntry) perm)
               (Mkdir sys (Path actualStateEntry) perm)))"

definition TargetStateDir_Equal ::
  "FileMode \<Rightarrow> ActualStateEntry \<Rightarrow> FileMode \<Rightarrow> bool \<times> error option" where
  "TargetStateDir_Equal perm actualStateEntry umask =
     (case actualStateEntry of
        ActualStateDir _ actualPerm \<Rightarrow>
          if \<not> umaskPermEqual actualPerm perm umask then (False, None) else (True, None)
      | _ \<Rightarrow> (False, None))"

subsection \<open>File\<close>

text \<open>
  When the actual entry is a file whose hash differs, control leaves the first
  \<^verbatim>\<open>if\<close> without entering its \<^verbatim>\<open>else if\<close>, and reaches \<^verbatim>\<open>t.Contents()\<close> and
  \<^verbatim>\<open>s.WriteFile\<close>; \<^verbatim>\<open>Remove\<close> is called only when the actual entry is not a file.
\<close>

definition TargetStateFile_Apply ::
  "'s System \<Rightarrow> lazyContents \<Rightarrow> FileMode \<Rightarrow> ActualStateEntry \<Rightarrow> FileMode \<Rightarrow> 's \<Rightarrow> 's outcome" where
  "TargetStateFile_Apply sys t perm actualStateEntry umask =
     (let writeContents =
            (case Contents t of
               Inl err \<Rightarrow> failWith err
             | Inr contents \<Rightarrow>
                 invoke (CallWriteFile (Path actualStateEntry) contents perm)
                   (WriteFile sys (Path actualStateEntry) contents perm))
      in case actualStateEntry of
           ActualStateFile path actualPerm actualContents \<Rightarrow>
             (case ContentsSHA256 actualContents of
                Inl err \<Rightarrow> failWith err
              | Inr actualContentsSHA256 \<Rightarrow>
                  (case ContentsSHA256 t of
                     Inl err \<Rightarrow> failWith err
                   | Inr contentsSHA256 \<Rightarrow>
                       if actualContentsSHA256 = contentsSHA256 then
                         (if umaskPermEqual actualPerm perm umask then succeed
                          else invoke (CallChmod path perm) (Chmod sys path perm))
                       else writeContents))
         | _ \<Rightarrow> andThen (Remove sys actualStateEntry) writeContents)"

definition TargetStateFile_Equal ::
  "lazyContents \<Rightarrow> FileMode \<Rightarrow> ActualStateEntry \<Rightarrow> FileMode \<Rightarrow> bool \<times> error option" where
  "TargetStateFile_Equal t perm actualStateEntry umask =
     (case actualStateEntry of
        ActualStateFile _ actualPerm actualContents \<Rightarrow>
          if \<not> umaskPermEqual actualPerm perm umask then (False, None)
          else (case ContentsSHA256 actualContents of
                  Inl err \<Rightarrow> (False, Some err)
                | Inr actualContentsSHA256 \<Rightarrow>
                    (case ContentsSHA256 t of
                       Inl err \<Rightarrow> (False, Some err)
                     | Inr contentsSHA256 \<Rightarrow>
                         if actualContentsSHA256 \<noteq> contentsSHA256 then (False, None)
                         else (True, None)))
      | _ \<Rightarrow> (False, None))"

subsection \<open>Present\<close>

definition TargetStatePresent_Apply ::
  "'s System \<Rightarrow> lazyContents \<Rightarrow> FileMode \<Rightarrow> ActualStateEntry \<Rightarrow> FileMode \<Rightarrow> 's \<Rightarrow> 's outcome" where
  "TargetStatePresent_Apply sys t perm actualStateEntry umask =
     (case actualStateEntry of
        ActualStateFile path actualPerm _ \<Rightarrow>
          if umaskPermEqual actualPerm perm umask then succeed
          else invoke (CallChmod path perm) (Chmod sys path perm)
      | _ \<Rightarrow>
          andThen (Remove sys actualStateEntry)
            (case Contents t of
               Inl err \<Rightarrow> failWith err
             | Inr contents \<Rightarrow>
                 invoke (CallWriteFile (Path actualStateEntry) contents perm)
                   (WriteFile sys (Path actualStateEntry) contents perm)))"

definition TargetStatePresent_Equal ::
  "FileMode \<Rightarrow> ActualStateEntry \<Rightarrow> FileMode \<Rightarrow> bool \<times> error option" where
  "TargetStatePresent_Equal perm actualStateEntry umask =
     (case actualStateEntry of
        ActualStateFile _ actualPerm _ \<Rightarrow>
          if \<not> umaskPermEqual actualPerm perm umask then (False, None) else (True, None)
      | _ \<Rightarrow> (False, None))"

subsection \<open>Rename of a directory\<close>

definition TargetStateRenameDir_Apply ::
  "'s System \<Rightarrow> string \<Rightarrow> string \<Rightarrow> ActualStateEntry \<Rightarrow> FileMode \<Rightarrow> 's \<Rightarrow> 's outcome" where
  "TargetStateRenameDir_Apply sys oldName newName actualStateEntry umask =
     (let dir = pathDir (Path actualStateEntry)
      in invoke (CallRename (pathJoin dir oldName) (pathJoin dir newName))
           (Rename sys (pathJoin dir oldName) (pathJoin dir newName)))"

definition TargetStateRenameDir_Equal :: "ActualStateEntry \<Rightarrow> FileMode \<Rightarrow> bool \<times> error option" where
  "TargetStateRenameDir_Equal actualStateEntry umask = (False, None)"

subsection \<open>Script\<close>

text \<open>
  The part of \<^verbatim>\<open>TargetStateScript.Apply\<close> after the lookup of the script-once record:
  materialise the contents, stop when they are empty, run the script, and for a
  once-script store the record under \<open>key\<close>.
\<close>

definition runAndRecord ::
  "Runtime \<Rightarrow> 's System \<Rightarrow> lazyContents \<Rightarrow> string \<Rightarrow> bool \<Rightarrow> string \<Rightarrow>
   ActualStateEntry \<Rightarrow> 's \<Rightarrow> 's outcome" where
  "runAndRecord rt sys t name once key actualStateEntry =
     (case Contents t of
        Inl err \<Rightarrow> failWith err
      | Inr contents \<Rightarrow>
          if isEmpty contents then succeed
          else
            andThen
              (invoke (CallRunScript name (pathDir (Path actualStateEntry)) contents)
                 (RunScript sys name (pathDir (Path actualStateEntry)) contents))
              (if once then
                 (case jsonMarshal rt \<lparr>Name = name, RunAt = timeNow rt\<rparr> of
                    Inl err \<Rightarrow> failWith err
                  | Inr v \<Rightarrow>
                      invoke (CallSet ScriptOnceStateBucket key v)
                        (PersistentStateSet sys ScriptOnceStateBucket key v))
               else succeed))"

definition TargetStateScript_Apply ::
  "Runtime \<Rightarrow> 's System \<Rightarrow> lazyContents \<Rightarrow> string \<Rightarrow> bool \<Rightarrow>
   ActualStateEntry \<Rightarrow> FileMode \<Rightarrow> 's \<Rightarrow> 's outcome" where
  "TargetStateScript_Apply rt sys t name once actualStateEntry umask s =
     (if once then
        (case ContentsSHA256 t of
           Inl err \<Rightarrow> failWith err s
         | Inr contentsSHA256 \<Rightarrow>
             (let key = EncodeToString contentsSHA256
              in case PersistentStateGet sys ScriptOnceStateBucket key s of
                   Inl err \<Rightarrow> (Some err, s, [CallGet ScriptOnceStateBucket key])
                 | Inr (Some _) \<Rightarrow> (None, s, [CallGet ScriptOnceStateBucket key])
                 | Inr None \<Rightarrow>
                     (case runAndRecord rt sys t name once key actualStateEntry s of
                        (err, s', cs) \<Rightarrow> (err, s', CallGet ScriptOnceStateBucket key # cs))))
      else runAndRecord rt sys t name once [] actualStateEntry s)"

definition TargetStateScript_Equal :: "ActualStateEntry \<Rightarrow> FileMode \<Rightarrow> bool \<times> error option" where
  "TargetStateScript_Equal actualStateEntry umask = (True, None)"

subsection \<open>Symlink\<close>

definition TargetStateSymlink_Apply ::
  "'s System \<Rightarrow> lazyLinkname \<Rightarrow> ActualStateEntry \<Rightarrow> FileMode \<Rightarrow> 's \<Rightarrow> 's outcome" where
  "TargetStateSymlink_Apply sys t actualStateEntry umask =
     (let replace =
            (case Linkname t of
               Inl err \<Rightarrow> failWith err
             | Inr linkname \<Rightarrow>
                 andThen (Remove sys actualStateEntry)
                   (invoke (CallWriteSymlink linkname (Path actualStateEntry))
                      (WriteSymlink sys linkname (Path actualStateEntry))))
      in case actualStateEntry of
           ActualStateSymlink _ actualSymlink \<Rightarrow>
             (case Linkname actualSymlink of
                Inl err \<Rightarrow> failWith err
              | Inr actualLinkname \<Rightarrow>
                  (case Linkname t of
                     Inl err \<Rightarrow> failWith err
                   | Inr linkname \<Rightarrow>
                       if actualLinkname = linkname then succeed else replace))
         | _ \<Rightarrow> replace)"

definition TargetStateSymlink_Equal ::
  "lazyLinkname \<Rightarrow> ActualStateEntry \<Rightarrow> FileMode \<Rightarrow> bool \<times> error option" where
  "TargetStateSymlink_Equal t actualStateEntry umask =
     (case actualStateEntry of
        ActualStateSymlink _ actualSymlink \<Rightarrow>
          (case Linkname actualSymlink of
             Inl err \<Rightarrow> (False, Some err)
           | Inr actualLinkname \<Rightarrow>
               (case Linkname t of
                  Inl err \<Rightarrow> (False, None)
                | Inr linkname \<Rightarrow>
                    if actualLinkname \<noteq> linkname then (False, None) else (True, None)))
      | _ \<Rightarrow> (False, None))"

subsection \<open>Dispatch on the variant\<close>

fun Apply ::
  "Runtime \<Rightarrow> 's System \<Rightarrow> TargetStateEntry \<Rightarrow> ActualStateEntry \<Rightarrow> FileMode \<Rightarrow> 's \<Rightarrow> 's outcome" where
  "Apply rt sys TargetStateAbsent a u = TargetStateAbsent_Apply sys a u"
| "Apply rt sys (TargetStateDir perm) a u = TargetStateDir_Apply sys perm a u"
| "Apply rt sys (TargetStateFile t perm) a u = TargetStateFile_Apply sys t perm a u"
| "Apply rt sys (TargetStatePresent t perm) a u = TargetStatePresent_Apply sys t perm a u"
| "Apply rt sys (TargetStateRenameDir oldName newName) a u =
     TargetStateRenameDir_Apply sys oldName newName a u"
| "Apply rt sys (TargetStateScript t name once) a u = TargetStateScript_Apply rt sys t name once a u"
| "Apply rt sys (TargetStateSymlink t) a u = TargetStateSymlink_Apply sys t a u"

fun Equal :: "TargetStateEntry \<Rightarrow> ActualStateEntry \<Rightarrow> FileMode \<Rightarrow> bool \<times> error option" where
  "Equal TargetStateAbsent a u = TargetStateAbsent_Equal a u"
| "Equal (TargetStateDir perm) a u = TargetStateDir_Equal perm a u"
| "Equal (TargetStateFile t perm) a u = TargetStateFile_Equal t perm a u"
| "Equal (TargetStatePresent t perm) a u = TargetStatePresent_Equal perm a u"
| "Equal (TargetStateRenameDir oldName newName) a u = TargetStateRenameDir_Equal a u"
| "Equal (TargetStateScript t name once) a u = TargetStateScript_Equal a u"
| "Equal (TargetStateSymlink t) a u = TargetStateSymlink_Equal t a u"

section \<open>A backend that carries the operations out\<close>

text \<open>
  Modelled from the spec: no implementation of \<^verbatim>\<open>System\<close> is in the source files. This
  is the backend of the spec's operation table, over a destination that maps each
  path to what lies there, a persistent key-value store partitioned into buckets, and
  the log of the scripts that were run:
  \<^item> \<open>WriteFile\<close> creates or replaces a regular file (and fails on a directory or an
    entry of another kind);
  \<^item> \<open>WriteSymlink\<close> replaces any existing entry with a symlink;
  \<^item> \<open>Mkdir\<close> creates one directory, and fails when the path exists;
  \<^item> \<open>Chmod\<close> adjusts the permissions of a file or directory;
  \<^item> \<open>Rename\<close> moves an entry and all below it, and fails when the old path is
    missing or the new one exists;
  \<^item> \<open>RemoveAll\<close> removes an entry and all below it;
  \<^item> \<open>RunScript\<close> logs the run; whether the script fails is decided by \<open>run\<close>,
    a parameter of the backend that may look at the state the script starts in;
  \<^item> \<open>Get\<close> and \<open>Set\<close> read and write the store.
\<close>

datatype node =
    NodeDir FileMode
  | NodeFile FileMode string
  | NodeSymlink string
  | NodeOther

record World =
  files :: "string \<rightharpoonup> node"
  persistentState :: "string \<times> string \<rightharpoonup> string"
  scriptLog :: "(string \<times> string \<times> string) list"

text \<open>Go's \<^verbatim>\<open>strings.HasPrefix\<close>.\<close>

definition HasPrefix :: "string \<Rightarrow> string \<Rightarrow> bool" where
  "HasPrefix s pre = (take (length pre) s = pre)"

definition below :: "string \<Rightarrow> string \<Rightarrow> bool" where
  "below p q = (q = p \<or> HasPrefix q (p @ ''/''))"

definition realChmod :: "string \<Rightarrow> FileMode \<Rightarrow> World \<Rightarrow> error option \<times> World" where
  "realChmod p perm w =
     (case files w p of
        Some (NodeDir _) \<Rightarrow> (None, w\<lparr>files := (files w)(p \<mapsto> NodeDir perm)\<rparr>)
      | Some (NodeFile _ contents) \<Rightarrow> (None, w\<lparr>files := (files w)(p \<mapsto> NodeFile perm contents)\<rparr>)
      | _ \<Rightarrow> (Some (Failure ''chmod''), w))"

definition realMkdir :: "string \<Rightarrow> FileMode \<Rightarrow> World \<Rightarrow> error option \<times> World" where
  "realMkdir p perm w =
     (case files w p of
        None \<Rightarrow> (None, w\<lparr>files := (files w)(p \<mapsto> NodeDir perm)\<rparr>)
      | Some _ \<Rightarrow> (Some (Failure ''mkdir''), w))"

definition realRemoveAll :: "string \<Rightarrow> World \<Rightarrow> error option \<times> World" where
  "realRemoveAll p w = (None, w\<lparr>files := (\<lambda>q. if below p q then None else files w q)\<rparr>)"

definition realRename :: "string \<Rightarrow> string \<Rightarrow> World \<Rightarrow> error option \<times> World" where
  "realRename old new w =
     (if files w old = None \<or> files w new \<noteq> None then (Some (Failure ''rename''), w)
      else (None, w\<lparr>files :=
              (\<lambda>q. if below new q then files w (old @ drop (length new) q)
                    else if below old q then None
                    else files w q)\<rparr>))"

definition realRunScript ::
  "(World \<Rightarrow> string \<Rightarrow> string \<Rightarrow> string \<Rightarrow> error option) \<Rightarrow>
   string \<Rightarrow> string \<Rightarrow> string \<Rightarrow> World \<Rightarrow> error option \<times> World" where
  "realRunScript run name dir contents w =
     (run w name dir contents, w\<lparr>scriptLog := scriptLog w @ [(name, dir, contents)]\<rparr>)"

definition realWriteFile :: "string \<Rightarrow> string \<Rightarrow> FileMode \<Rightarrow> World \<Rightarrow> error option \<times> World" where
  "realWriteFile p contents perm w =
     (case files w p of
        Some (NodeDir _) \<Rightarrow> (Some (Failure ''write''), w)
      | Some NodeOther \<Rightarrow> (Some (Failure ''write''), w)
      | _ \<Rightarrow> (None, w\<lparr>files := (files w)(p \<mapsto> NodeFile perm contents)\<rparr>))"

definition realWriteSymlink :: "string \<Rightarrow> string \<Rightarrow> World \<Rightarrow> error option \<times> World" where
  "realWriteSymlink linkname p w =
     (None, w\<lparr>files := (\<lambda>q. if q = p then Some (NodeSymlink linkname)
                              else if below p q then None
                              else files w q)\<rparr>)"

definition realGet :: "string \<Rightarrow> string \<Rightarrow> World \<Rightarrow> error + string option" where
  "realGet bucket key w = Inr (persistentState w (bucket, key))"

definition realSet :: "string \<Rightarrow> string \<Rightarrow> string \<Rightarrow> World \<Rightarrow> error option \<times> World" where
  "realSet bucket key v w =
     (None, w\<lparr>persistentState := (persistentState w)((bucket, key) \<mapsto> v)\<rparr>)"

definition RealSystem ::
  "(World \<Rightarrow> string \<Rightarrow> string \<Rightarrow> string \<Rightarrow> error option) \<Rightarrow> World System" where
  "RealSystem run =
     \<lparr>Chmod = realChmod, Mkdir = realMkdir,
      PersistentStateGet = realGet, PersistentStateSet = realSet,
      RemoveAll = realRemoveAll, Rename = realRename,
      RunScript = realRunScript run,
      WriteFile = realWriteFile, WriteSymlink = realWriteSymlink\<rparr>"

text \<open>
  Modelled from the spec: \<^verbatim>\<open>GetActualStateEntry\<close> is not in the source files. The
  probe of a path: absent, directory with its permissions, file with lazy contents
  and their hash \<open>H\<close>, symlink with its lazy link target; any other kind fails as
  unsupported.
\<close>

definition GetActualStateEntry ::
  "(string \<Rightarrow> string) \<Rightarrow> World \<Rightarrow> string \<Rightarrow> error + ActualStateEntry" where
  "GetActualStateEntry H w p =
     (case files w p of
        None \<Rightarrow> Inr (ActualStateAbsent p)
      | Some (NodeDir perm) \<Rightarrow> Inr (ActualStateDir p perm)
      | Some (NodeFile perm contents) \<Rightarrow>
          Inr (ActualStateFile p perm \<lparr>Contents = Inr contents, ContentsSHA256 = Inr (H contents)\<rparr>)
      | Some (NodeSymlink linkname) \<Rightarrow> Inr (ActualStateSymlink p \<lparr>Linkname = Inr linkname\<rparr>)
      | Some NodeOther \<Rightarrow> Inl (Unsupported p))"

section \<open>Vocabulary of the statements about \<open>Apply\<close>\<close>

text \<open>
  A file target whose lazy contents are hashed by \<open>H\<close> (the other variants compare
  no hash of their own), and the test for the rename-directory variant.
\<close>

definition targetHashedBy :: "(string \<Rightarrow> string) \<Rightarrow> TargetStateEntry \<Rightarrow> bool" where
  "targetHashedBy H t = (case t of TargetStateFile lc _ \<Rightarrow> hashedBy H lc | _ \<Rightarrow> True)"

definition isRenameDir :: "TargetStateEntry \<Rightarrow> bool" where
  "isRenameDir t = (case t of TargetStateRenameDir _ _ \<Rightarrow> True | _ \<Rightarrow> False)"

text \<open>
  Any number of \<open>Apply\<close> calls on one backend, each with its own runtime, target,
  actual entry and umask; the backend state (and so the persistent state) is threaded
  from one call to the next, whether a call fails or not. The result lists, for each
  call, the target, the error returned and the backend calls issued.
\<close>

type_synonym step = "Runtime \<times> TargetStateEntry \<times> ActualStateEntry \<times> FileMode"

fun applyAll ::
  "'s System \<Rightarrow> step list \<Rightarrow> 's \<Rightarrow> (TargetStateEntry \<times> error option \<times> call list) list" where
  "applyAll sys [] s = []"
| "applyAll sys ((rt, t, a, u) # steps) s =
     (case Apply rt sys t a u s of
        (e, s', cs) \<Rightarrow> (t, e, cs) # applyAll sys steps s')"

definition isRunScript :: "call \<Rightarrow> bool" where
  "isRunScript c = (case c of CallRunScript _ _ _ \<Rightarrow> True | _ \<Rightarrow> False)"

text \<open>The buckets and keys of the calls to the persistent state, in order.\<close>

fun storeKeys :: "call list \<Rightarrow> (string \<times> string) list" where
  "storeKeys [] = []"
| "storeKeys (CallGet bucket key # cs) = (bucket, key) # storeKeys cs"
| "storeKeys (CallSet bucket key _ # cs) = (bucket, key) # storeKeys cs"
| "storeKeys (_ # cs) = storeKeys cs"

text \<open>The contents digest of a script with \<open>once = true\<close>.\<close>

definition onceDigest :: "TargetStateEntry \<Rightarrow> string option" where
  "onceDigest t =
     (case t of
        TargetStateScript lc _ once \<Rightarrow>
          (if once then (case ContentsSHA256 lc of Inr d \<Rightarrow> Some d | Inl _ \<Rightarrow> None) else None)
      | _ \<Rightarrow> None)"

text \<open>
  An \<open>Apply\<close> of a once-script with digest \<open>d\<close> that invoked \<open>RunScript\<close> and
  returned no error.
\<close>

definition ranScript :: "string \<Rightarrow> TargetStateEntry \<times> error option \<times> call list \<Rightarrow> bool" where
  "ranScript d r =
     (case r of (t, e, cs) \<Rightarrow> onceDigest t = Some d \<and> e = None \<and> list_ex isRunScript cs)"

text \<open>
  An \<open>Apply\<close> of a once-script with digest \<open>d\<close> that invoked \<open>RunScript\<close>, whether
  it succeeded or not.
\<close>

definition invokedFor :: "string \<Rightarrow> TargetStateEntry \<times> error option \<times> call list \<Rightarrow> bool" where
  "invokedFor d r = (case r of (t, e, cs) \<Rightarrow> onceDigest t = Some d \<and> list_ex isRunScript cs)"

section \<open>The credential tool: password prompt and cache\<close>

text \<open>
  Standard input as \<^verbatim>\<open>readPassword\<close> sees it. On a terminal each call of
  \<^verbatim>\<open>term.ReadPassword\<close> takes the next answer (password and error); an exhausted
  terminal answers with \<^verbatim>\<open>io.EOF\<close>. Otherwise standard input is a stream of bytes:
  \<^verbatim>\<open>os.Stdin.Read\<close> on a one-byte buffer returns the next byte with no error, and
  after the last byte it returns no byte and the stream's final error (\<^verbatim>\<open>io.EOF\<close>
  at the end of the input, or a read failure).
\<close>

datatype Stdin =
    Terminal "(string \<times> error option) list"
  | Pipe string error

text \<open>
  The byte-wise loop of \<^verbatim>\<open>readPassword\<close>: \<open>pw\<close> is the password read so far. The
  result is the pair Go returns and the bytes left unread.
\<close>

fun readLoop :: "string \<Rightarrow> string \<Rightarrow> error \<Rightarrow> (string \<times> error option) \<times> string" where
  "readLoop pw [] final =
     ((pw, if final = EOF \<and> length pw > 0 then None else Some final), [])"
| "readLoop pw (b # bs) final =
     (if b \<noteq> CHR 0x0D then
        (if b = CHR 0x0A then ((pw, None), bs)
         else if length (pw @ [b]) > 1024 then ((pw @ [b], Some PasswordTooLong), bs)
         else readLoop (pw @ [b]) bs final)
      else readLoop pw bs final)"

fun readPassword :: "Stdin \<Rightarrow> (string \<times> error option) \<times> Stdin" where
  "readPassword (Terminal []) = (([], Some EOF), Terminal [])"
| "readPassword (Terminal (answer # answers)) = (answer, Terminal answers)"
| "readPassword (Pipe bs final) =
     (case readLoop [] bs final of (r, rest) \<Rightarrow> (r, Pipe rest final))"

text \<open>
  The process-wide state of the credential tool integration: the cached password
  (the package variable \<^verbatim>\<open>keePassXCPassword\<close>), standard input, and the number of
  times \<^verbatim>\<open>readPassword\<close> has been called.
\<close>

record Process =
  keePassXCPassword :: string
  stdin :: Stdin
  passwordReads :: nat

text \<open>
  \<^verbatim>\<open>runKeePassXCCLICommand\<close>. The child process is \<open>cmdOutput\<close>
  (\<^verbatim>\<open>IdempotentCmdOutput\<close> of the mutator): from the command name, its arguments and
  the bytes piped to its standard input it gives the output or an error.
\<close>

definition runKeePassXCCLICommand ::
  "(string \<Rightarrow> string list \<Rightarrow> string \<Rightarrow> error + string) \<Rightarrow>
   string \<Rightarrow> string list \<Rightarrow> Process \<Rightarrow> (error + string) \<times> Process" where
  "runKeePassXCCLICommand cmdOutput name args pr =
     (if keePassXCPassword pr = [] then
        (case readPassword (stdin pr) of
           ((password, err), rest) \<Rightarrow>
             (let pr' = pr\<lparr>stdin := rest, passwordReads := passwordReads pr + 1\<rparr>
              in case err of
                   Some e \<Rightarrow> (Inl e, pr')
                 | None \<Rightarrow>
                     (cmdOutput name args (password @ [CHR 0x0A]),
                      pr'\<lparr>keePassXCPassword := password\<rparr>)))
      else (cmdOutput name args (keePassXCPassword pr @ [CHR 0x0A]), pr))"

text \<open>Any number of invocations in one process, in order.\<close>

fun runCommands ::
  "(string \<Rightarrow> string list \<Rightarrow> string \<Rightarrow> error + string) \<Rightarrow>
   (string \<times> string list) list \<Rightarrow> Process \<Rightarrow> (error + string) list \<times> Process" where
  "runCommands cmdOutput [] pr = ([], pr)"
| "runCommands cmdOutput ((name, args) # cmds) pr =
     (case runKeePassXCCLICommand cmdOutput name args pr of
        (r, pr') \<Rightarrow> (case runCommands cmdOutput cmds pr' of (rs, pr'') \<Rightarrow> (r # rs, pr'')))"

section \<open>The credential tool: parsing the output of \<open>show\<close>\<close>

text \<open>
  Go's \<^verbatim>\<open>bufio.Scanner\<close> with its default split function \<^verbatim>\<open>ScanLines\<close> and its
  default buffer limit: the lines of the input, each without its line feed and
  without one trailing carriage return; a last line with no line feed counts when it
  is not empty. The scanner stops with \<^verbatim>\<open>ErrTooLong\<close> when its buffer of
  \<^verbatim>\<open>MaxScanTokenSize\<close> bytes is full and holds no line feed.
\<close>

definition MaxScanTokenSize :: nat where
  "MaxScanTokenSize = 64 * 1024"

definition dropCR :: "string \<Rightarrow> string" where
  "dropCR line = (if line \<noteq> [] \<and> last line = CHR 0x0D then butlast line else line)"

function scanLines :: "string \<Rightarrow> string list \<times> error option" where
  "scanLines input =
     (if input = [] then ([], None)
      else
        (let line = takeWhile (\<lambda>c. c \<noteq> CHR 0x0A) input
         in if length line < length input then
              (if length line < MaxScanTokenSize then
                 (case scanLines (drop (length line + 1) input) of
                    (tokens, err) \<Rightarrow> (dropCR line # tokens, err))
               else ([], Some ErrTooLong))
            else
              (if length input < MaxScanTokenSize then ([dropCR input], None)
               else ([], Some ErrTooLong))))"
  by pat_completeness auto
termination
  by (relation "measure length") auto

declare scanLines.simps [simp del]

text \<open>
  \<^verbatim>\<open>keePassXCPairRegexp.FindStringSubmatch\<close> for the pattern
  \<^verbatim>\<open>^([^:]+): (.*)$\<close>: the first group is the non-empty text before the first
  colon, which a space must follow; the second group is the rest, which holds no line
  feed (\<^verbatim>\<open>.\<close> matches none, and \<^verbatim>\<open>$\<close> is the end of the text).
\<close>

definition FindStringSubmatch :: "string \<Rightarrow> (string \<times> string) option" where
  "FindStringSubmatch line =
     (let name = takeWhile (\<lambda>c. c \<noteq> CHR '':'') line;
          rest = dropWhile (\<lambda>c. c \<noteq> CHR '':'') line
      in if name \<noteq> [] \<and> take 2 rest = '': '' \<and> CHR 0x0A \<notin> set (drop 2 rest)
         then Some (name, drop 2 rest) else None)"

text \<open>The body of the loop of \<^verbatim>\<open>parseKeyPassXCOutput\<close> for the lines after the first.\<close>

fun parseLines :: "string list \<Rightarrow> (string \<rightharpoonup> string) \<Rightarrow> error + (string \<rightharpoonup> string)" where
  "parseLines [] data = Inr data"
| "parseLines (line # rest) data =
     (case FindStringSubmatch line of
        None \<Rightarrow> Inl (CannotParse line)
      | Some (name, v) \<Rightarrow> parseLines rest (data(name \<mapsto> v)))"

text \<open>
  \<^verbatim>\<open>parseKeyPassXCOutput\<close> returns Go's pair: \<^verbatim>\<open>(nil, err)\<close> at a line that does not
  match, and otherwise the map together with the scanner's error, \<^verbatim>\<open>s.Err()\<close>.
\<close>

definition parseKeyPassXCOutput :: "string \<Rightarrow> (string \<rightharpoonup> string) option \<times> error option" where
  "parseKeyPassXCOutput output =
     (case scanLines output of
        (tokens, scanErr) \<Rightarrow>
          (case parseLines (drop 1 tokens) Map.empty of
             Inl err \<Rightarrow> (None, Some err)
           | Inr data \<Rightarrow> (Some data, scanErr)))"

section \<open>The unmanaged listing\<close>

text \<open>
  \<^verbatim>\<open>TrimDirPrefix\<close>; \<^verbatim>\<open>MustTrimDirPrefix\<close> panics with its error.
\<close>

definition TrimDirPrefix :: "string \<Rightarrow> string \<Rightarrow> error + string" where
  "TrimDirPrefix path dir =
     (let prefix = dir @ ''/''
      in if \<not> HasPrefix path prefix then Inl (NoDirPrefix path dir)
         else Inr (drop (length prefix) path))"

text \<open>
  The destination as the walker finds it: every entry has a name, is a directory or
  not, and a directory has its entries in the order the walker reads them.
\<close>

datatype tree = Tree string bool "tree list"

text \<open>
  What a walk function tells the walker: go on (\<^verbatim>\<open>nil\<close>), skip this directory
  (\<^verbatim>\<open>vfs.SkipDir\<close>), or stop with an error.
\<close>

datatype signal = Proceed | SkipDir | Abort error

text \<open>
  Modelled from the spec: the backend's directory walker (\<^verbatim>\<open>vfs.WalkSlash\<close>) is not
  in the source files. It walks as Go's \<^verbatim>\<open>filepath.Walk\<close> does: the walk function
  is called on an entry before its children, with the slash path of the entry; a
  directory for which it returns \<^verbatim>\<open>SkipDir\<close> is not entered; \<^verbatim>\<open>SkipDir\<close> on a
  non-directory skips the rest of its directory; any other error stops the walk. The
  walk function threads a state \<open>'st\<close> (here the string builder).
\<close>

fun walk ::
  "(string \<Rightarrow> bool \<Rightarrow> error option \<Rightarrow> 'st \<Rightarrow> signal \<times> 'st) \<Rightarrow> string \<Rightarrow> tree \<Rightarrow> 'st \<Rightarrow> signal \<times> 'st"
and walkEntries ::
  "(string \<Rightarrow> bool \<Rightarrow> error option \<Rightarrow> 'st \<Rightarrow> signal \<times> 'st) \<Rightarrow> string \<Rightarrow> tree list \<Rightarrow> 'st \<Rightarrow> signal \<times> 'st"
where
  "walk walkFn path (Tree name isDir entries) st =
     (if \<not> isDir then walkFn path False None st
      else (case walkFn path True None st of
              (Proceed, st') \<Rightarrow> walkEntries walkFn path entries st'
            | (sig, st') \<Rightarrow> (sig, st')))"
| "walkEntries walkFn dir [] st = (Proceed, st)"
| "walkEntries walkFn dir (Tree name isDir entries # rest) st =
     (case walk walkFn (pathJoin dir name) (Tree name isDir entries) st of
        (Abort err, st') \<Rightarrow> (Abort err, st')
      | (SkipDir, st') \<Rightarrow> if isDir then walkEntries walkFn dir rest st' else (SkipDir, st')
      | (Proceed, st') \<Rightarrow> walkEntries walkFn dir rest st')"

text \<open>
  The walk function of \<^verbatim>\<open>runUnmanagedCmd\<close>. The source state enters through its two
  queries: \<open>managed name\<close> for \<^verbatim>\<open>sourceState.Entry(name)\<close> finding an entry, and
  \<open>ignored name\<close> for \<^verbatim>\<open>sourceState.Ignored(name)\<close>. The state is the string
  builder. A panic of \<^verbatim>\<open>MustTrimDirPrefix\<close> stops the walk with its error.
\<close>

definition unmanagedWalkFn ::
  "string \<Rightarrow> (string \<Rightarrow> bool) \<Rightarrow> (string \<Rightarrow> bool) \<Rightarrow>
   string \<Rightarrow> bool \<Rightarrow> error option \<Rightarrow> string \<Rightarrow> signal \<times> string" where
  "unmanagedWalkFn absSlashDestDir managed ignored path isDir err sb =
     (case err of
        Some e \<Rightarrow> (Abort e, sb)
      | None \<Rightarrow>
          if path = absSlashDestDir then (Proceed, sb)
          else
            (case TrimDirPrefix path absSlashDestDir of
               Inl e \<Rightarrow> (Abort e, sb)
             | Inr targetName \<Rightarrow>
                 (let sb' = (if \<not> managed targetName \<and> \<not> ignored targetName
                             then sb @ targetName @ [CHR 0x0A] else sb)
                  in if isDir \<and> (\<not> managed targetName \<or> ignored targetName)
                     then (SkipDir, sb') else (Proceed, sb'))))"

text \<open>
  \<^verbatim>\<open>runUnmanagedCmd\<close>: the error of the walk, or the string handed to
  \<^verbatim>\<open>writeOutputString\<close>. The walker turns a \<^verbatim>\<open>SkipDir\<close> that reaches the top into
  success.
\<close>

definition runUnmanagedCmd ::
  "string \<Rightarrow> (string \<Rightarrow> bool) \<Rightarrow> (string \<Rightarrow> bool) \<Rightarrow> tree \<Rightarrow> error + string" where
  "runUnmanagedCmd absSlashDestDir managed ignored dest =
     (case walk (unmanagedWalkFn absSlashDestDir managed ignored) absSlashDestDir dest [] of
        (Abort err, _) \<Rightarrow> Inl err
      | (_, sb) \<Rightarrow> Inr sb)"

text \<open>
  The listing in the spec's words, for comparison with the code: the entries the
  walk reaches below the destination root, each with its path relative to the root,
  where the walk descends only into directories that are managed and not ignored;
  \<open>parent\<close> is the relative path of the directory being listed (\<open>None\<close> for the
  root).
\<close>

fun walked ::
  "(string \<Rightarrow> bool) \<Rightarrow> (string \<Rightarrow> bool) \<Rightarrow> string option \<Rightarrow> tree list \<Rightarrow> string list" where
  "walked managed ignored parent [] = []"
| "walked managed ignored parent (Tree name isDir entries # rest) =
     (let rel = (case parent of None \<Rightarrow> name | Some d \<Rightarrow> d @ ''/'' @ name)
      in rel #
         (if isDir \<and> managed rel \<and> \<not> ignored rel
          then walked managed ignored (Some rel) entries else []) @
         walked managed ignored parent rest)"

definition walkedBelow :: "(string \<Rightarrow> bool) \<Rightarrow> (string \<Rightarrow> bool) \<Rightarrow> tree \<Rightarrow> string list" where
  "walkedBelow managed ignored dest =
     (case dest of
        Tree _ isDir entries \<Rightarrow> walked managed ignored None (if isDir then entries else []))"

definition unmanagedListing ::
  "(string \<Rightarrow> bool) \<Rightarrow> (string \<Rightarrow> bool) \<Rightarrow> tree \<Rightarrow> string" where
  "unmanagedListing managed ignored dest =
     concat (map (\<lambda>rel. rel @ [CHR 0x0A])
       (filter (\<lambda>rel. \<not> managed rel \<and> \<not> ignored rel) (walkedBelow managed ignored dest)))"

text \<open>
  A walk function that also records, in order, every path the walker calls it with:
  the paths the walk reaches.
\<close>

definition traced ::
  "(string \<Rightarrow> bool \<Rightarrow> error option \<Rightarrow> 'st \<Rightarrow> signal \<times> 'st) \<Rightarrow>
   string \<Rightarrow> bool \<Rightarrow> error option \<Rightarrow> string list \<times> 'st \<Rightarrow> signal \<times> string list \<times> 'st" where
  "traced walkFn path isDir err st =
     (case st of (visited, st0) \<Rightarrow>
        (case walkFn path isDir err st0 of (sig, st') \<Rightarrow> (sig, visited @ [path], st')))"

section \<open>The verify command\<close>

text \<open>
  \<^verbatim>\<open>runVerifyCmd\<close>. The apply pass over the dry-run backend (\<^verbatim>\<open>c.applyArgs\<close>) and
  the backend's \<^verbatim>\<open>Modified()\<close> are not in the source files; they are parameters:
  \<open>applyArgs\<close> gives the error of the pass and the state it leaves the dry-run
  backend in. The command's error is its exit code: \<^verbatim>\<open>nil\<close> is exit code zero and
  \<^verbatim>\<open>ErrExitCode(1)\<close> is exit code 1.
\<close>

definition runVerifyCmd :: "('s \<Rightarrow> error option \<times> 's) \<Rightarrow> ('s \<Rightarrow> bool) \<Rightarrow> 's \<Rightarrow> error option" where
  "runVerifyCmd applyArgs Modified dryRunSystem =
     (case applyArgs dryRunSystem of
        (Some err, _) \<Rightarrow> Some err
      | (None, dryRunSystem') \<Rightarrow>
          if Modified dryRunSystem' then Some (ErrExitCode 1) else None)"

section \<open>Concrete scenarios\<close>

text \<open>
  The values of the worked examples below: a runtime whose clock stands at 0 and
  whose encoder writes the name of the record; a stand-in for the hash function; an
  empty destination with an empty persistent state; scripts that all succeed, and
  scripts that all fail; the file of the spec's first scenario and the script of its
  fourth, applied twice; a child process that returns what is piped to it; an output
  of the credential tool; the destination of the spec's sixth scenario; and a process
  whose standard input is a stream.
\<close>

definition scenarioRuntime :: Runtime where
  "scenarioRuntime = \<lparr>timeNow = 0, jsonMarshal = (\<lambda>r. Inr (Name r))\<rparr>"

definition scenarioHash :: "string \<Rightarrow> string" where
  "scenarioHash contents = rev contents"

definition emptyWorld :: World where
  "emptyWorld = \<lparr>files = Map.empty, persistentState = Map.empty, scriptLog = []\<rparr>"

definition scriptsSucceed :: "World \<Rightarrow> string \<Rightarrow> string \<Rightarrow> string \<Rightarrow> error option" where
  "scriptsSucceed w name dir contents = None"

definition scriptsFail :: "World \<Rightarrow> string \<Rightarrow> string \<Rightarrow> string \<Rightarrow> error option" where
  "scriptsFail w name dir contents = Some (Failure ''exit status 1'')"

definition scenarioFile :: TargetStateEntry where
  "scenarioFile = TargetStateFile \<lparr>Contents = Inr ''hello'', ContentsSHA256 = Inr (scenarioHash ''hello'')\<rparr> 420"

definition scenarioScript :: lazyContents where
  "scenarioScript = \<lparr>Contents = Inr ''echo hi'', ContentsSHA256 = Inr (scenarioHash ''echo hi'')\<rparr>"

definition scenarioSteps :: "step list" where
  "scenarioSteps =
     [(scenarioRuntime, TargetStateScript scenarioScript ''setup'' True,
       ActualStateAbsent ''/home/user/setup'', 18),
      (scenarioRuntime, TargetStateScript scenarioScript ''setup'' True,
       ActualStateAbsent ''/home/user/setup'', 18)]"

definition echo :: "string \<Rightarrow> string list \<Rightarrow> string \<Rightarrow> error + string" where
  "echo name args input = Inr input"

definition scenarioOutput :: string where
  "scenarioOutput = ''Title: db'' @ [CHR 0x0D, CHR 0x0A] @ ''UserName: bob'' @ [CHR 0x0A] @ ''URL: http://x''"

definition scenarioTree :: tree where
  "scenarioTree = Tree ''user'' True [Tree ''extra'' True [Tree ''inner'' False []], Tree ''managed'' False []]"

definition scenarioProcess :: "string \<Rightarrow> Process" where
  "scenarioProcess input = \<lparr>keePassXCPassword = [], stdin = Pipe input EOF, passwordReads = 0\<rparr>"

section \<open>Auxiliary notions of the proofs\<close>

text \<open>A command of the backend that never removes a key from the persistent state.\<close>

definition growsStore :: "(World \<Rightarrow> World outcome) \<Rightarrow> bool" where
  "growsStore f = (\<forall>w e w' cs. f w = (e, w', cs) \<longrightarrow> dom (persistentState w) \<subseteq> dom (persistentState w'))"

text \<open>
  The absolute path of a directory of the walk, the relative path of one of its
  entries, and the text the listing writes for a list of relative paths.
\<close>

definition absOf :: "string \<Rightarrow> string option \<Rightarrow> string" where
  "absOf root parent = (case parent of None \<Rightarrow> root | Some d \<Rightarrow> root @ ''/'' @ d)"

definition relOf :: "string option \<Rightarrow> string \<Rightarrow> string" where
  "relOf parent name = (case parent of None \<Rightarrow> name | Some d \<Rightarrow> d @ ''/'' @ name)"

definition emitted :: "(string \<Rightarrow> bool) \<Rightarrow> (string \<Rightarrow> bool) \<Rightarrow> string list \<Rightarrow> string" where
  "emitted m ig rels = concat (map (\<lambda>rel. rel @ [CHR 0x0A]) (filter (\<lambda>rel. \<not> m rel \<and> \<not> ig rel) rels))"

text \<open>
  A plain file name (not empty, not \<^verbatim>\<open>.\<close> or \<^verbatim>\<open>..\<close>, without a slash), a destination
  all of whose entries have plain names, and a cleaned absolute path other than the
  root.
\<close>

definition plainName :: "string \<Rightarrow> bool" where
  "plainName name = (name \<noteq> [] \<and> name \<noteq> ''.'' \<and> name \<noteq> ''..'' \<and> CHR ''/'' \<notin> set name)"

fun plainEntries :: "tree list \<Rightarrow> bool" where
  "plainEntries [] = True"
| "plainEntries (Tree name isDir entries # rest) =
     (plainName name \<and> plainEntries entries \<and> plainEntries rest)"

definition cleanBelowRoot :: "string \<Rightarrow> bool" where
  "cleanBelowRoot dir = (take 1 dir = ''/'' \<and> dir \<noteq> ''/'' \<and> Clean dir = dir)"

section \<open>Auxiliary lemmas\<close>

subsection \<open>The backend that carries the operations out: probing after a call\<close>

lemma RealSystem_simps:
  "Chmod (RealSystem run) = realChmod" "Mkdir (RealSystem run) = realMkdir"
  "PersistentStateGet (RealSystem run) = realGet" "PersistentStateSet (RealSystem run) = realSet"
  "RemoveAll (RealSystem run) = realRemoveAll" "Rename (RealSystem run) = realRename"
  "RunScript (RealSystem run) = realRunScript run"
  "WriteFile (RealSystem run) = realWriteFile" "WriteSymlink (RealSystem run) = realWriteSymlink"
  by (simp_all add: RealSystem_def)

lemmas m_defs = succeed_def failWith_def invoke_def andThen_def Remove_def

lemma below_self: "below p p" by (simp add: below_def)

lemma probe_cases:
  assumes "GetActualStateEntry H w p = Inr a"
  obtains (isAbsent) "files w p = None" and "a = ActualStateAbsent p"
  | (isDir) perm where "files w p = Some (NodeDir perm)" and "a = ActualStateDir p perm"
  | (isFile) perm c where "files w p = Some (NodeFile perm c)"
      and "a = ActualStateFile p perm \<lparr>Contents = Inr c, ContentsSHA256 = Inr (H c)\<rparr>"
  | (isSymlink) l where "files w p = Some (NodeSymlink l)" and "a = ActualStateSymlink p \<lparr>Linkname = Inr l\<rparr>"
  using assms by (auto simp: GetActualStateEntry_def split: option.splits node.splits)

lemma probe_removed: "GetActualStateEntry H (snd (realRemoveAll p w)) p = Inr (ActualStateAbsent p)"
  by (simp add: GetActualStateEntry_def realRemoveAll_def below_self)

lemma absent_ok:
  assumes "GetActualStateEntry H w p = Inr a"
      and "TargetStateAbsent_Apply (RealSystem run) a umask w = (None, w', cs)"
  shows "\<exists>a'. GetActualStateEntry H w' p = Inr a' \<and> TargetStateAbsent_Equal a' umask = (True, None)"
  using assms(1)
proof (cases rule: probe_cases)
  case isAbsent
  with assms show ?thesis
    by (simp add: TargetStateAbsent_Apply_def TargetStateAbsent_Equal_def succeed_def)
next
  case (isDir perm)
  with assms(2) have "w' = snd (realRemoveAll p w)"
    by (simp add: TargetStateAbsent_Apply_def m_defs RealSystem_simps split: prod.splits) 
  then show ?thesis by (simp add: probe_removed TargetStateAbsent_Equal_def)
next
  case (isFile perm c)
  with assms(2) have "w' = snd (realRemoveAll p w)"
    by (simp add: TargetStateAbsent_Apply_def m_defs RealSystem_simps split: prod.splits) 
  then show ?thesis by (simp add: probe_removed TargetStateAbsent_Equal_def)
next
  case (isSymlink l)
  with assms(2) have "w' = snd (realRemoveAll p w)"
    by (simp add: TargetStateAbsent_Apply_def m_defs RealSystem_simps split: prod.splits) 
  then show ?thesis by (simp add: probe_removed TargetStateAbsent_Equal_def)
qed

lemma probe_chmod_dir:
  "files w p = Some (NodeDir perm0) \<Longrightarrow>
   realChmod p perm w = (None, w') \<Longrightarrow> GetActualStateEntry H w' p = Inr (ActualStateDir p perm)"
  by (auto simp: realChmod_def GetActualStateEntry_def)

lemma probe_chmod_file:
  "files w p = Some (NodeFile perm0 c) \<Longrightarrow>
   realChmod p perm w = (None, w') \<Longrightarrow>
   GetActualStateEntry H w' p = Inr (ActualStateFile p perm \<lparr>Contents = Inr c, ContentsSHA256 = Inr (H c)\<rparr>)"
  by (auto simp: realChmod_def GetActualStateEntry_def)

lemma probe_mkdir:
  "realMkdir p perm w = (None, w') \<Longrightarrow> GetActualStateEntry H w' p = Inr (ActualStateDir p perm)"
  by (auto simp: realMkdir_def GetActualStateEntry_def split: option.splits)

lemma probe_write:
  "realWriteFile p c perm w = (None, w') \<Longrightarrow>
   GetActualStateEntry H w' p = Inr (ActualStateFile p perm \<lparr>Contents = Inr c, ContentsSHA256 = Inr (H c)\<rparr>)"
  by (auto simp: realWriteFile_def GetActualStateEntry_def split: option.splits node.splits)

lemma probe_symlink:
  "realWriteSymlink l p w = (None, w') \<Longrightarrow>
   GetActualStateEntry H w' p = Inr (ActualStateSymlink p \<lparr>Linkname = Inr l\<rparr>)"
  by (auto simp: realWriteSymlink_def GetActualStateEntry_def)

lemma Remove_real:
  "Remove (RealSystem run) a w = (e, w', cs) \<Longrightarrow> e = None \<and> (w' = w \<or> w' = snd (realRemoveAll (Path a) w))"
  by (cases a) (auto simp: m_defs RealSystem_simps realRemoveAll_def)

lemma umaskPermEqual_same: "umaskPermEqual p p u"
  by (simp add: umaskPermEqual_def)

lemma dir_ok:
  assumes "GetActualStateEntry H w p = Inr a"
      and "TargetStateDir_Apply (RealSystem run) perm a umask w = (None, w', cs)"
  shows "\<exists>a'. GetActualStateEntry H w' p = Inr a' \<and> TargetStateDir_Equal perm a' umask = (True, None)"
  using assms(1)
proof (cases rule: probe_cases)
  case isAbsent
  with assms(2) have "realMkdir p perm w = (None, w')"
    by (simp add: TargetStateDir_Apply_def m_defs RealSystem_simps split: prod.splits option.splits)
  then show ?thesis by (simp add: probe_mkdir TargetStateDir_Equal_def umaskPermEqual_same)
next
  case (isDir perm0)
  show ?thesis
  proof (cases "umaskPermEqual perm0 perm umask")
    case True
    with isDir assms show ?thesis
      by (simp add: TargetStateDir_Apply_def TargetStateDir_Equal_def succeed_def)
  next
    case False
    with isDir assms(2) have "realChmod p perm w = (None, w')"
      by (simp add: TargetStateDir_Apply_def m_defs RealSystem_simps split: prod.splits)
    with isDir show ?thesis
      by (simp add: probe_chmod_dir TargetStateDir_Equal_def umaskPermEqual_same)
  qed
next
  case (isFile perm0 c)
  with assms(2) have "realMkdir p perm (snd (realRemoveAll p w)) = (None, w')"
    by (simp add: TargetStateDir_Apply_def m_defs RealSystem_simps realRemoveAll_def split: prod.splits option.splits)
  then show ?thesis by (simp add: probe_mkdir TargetStateDir_Equal_def umaskPermEqual_same)
next
  case (isSymlink l)
  with assms(2) have "realMkdir p perm (snd (realRemoveAll p w)) = (None, w')"
    by (simp add: TargetStateDir_Apply_def m_defs RealSystem_simps realRemoveAll_def split: prod.splits option.splits)
  then show ?thesis by (simp add: probe_mkdir TargetStateDir_Equal_def umaskPermEqual_same)
qed

lemma invoke_None: "invoke c f w = (None, w', cs) \<Longrightarrow> f w = (None, w')"
  by (auto simp: invoke_def split: prod.splits)

lemma andThen_None:
  "andThen f g w = (None, w', cs) \<Longrightarrow> \<exists>w1 cs1 cs2. f w = (None, w1, cs1) \<and> g w1 = (None, w', cs2)"
  by (auto simp: andThen_def split: prod.splits option.splits)

lemma Remove_then:
  assumes "andThen (Remove (RealSystem run) a) g w = (None, w', cs)"
  shows "\<exists>w1 cs2. (w1 = w \<or> w1 = snd (realRemoveAll (Path a) w)) \<and> g w1 = (None, w', cs2)"
proof -
  from andThen_None [OF assms] obtain w1 cs1 cs2
    where r: "Remove (RealSystem run) a w = (None, w1, cs1)" and g: "g w1 = (None, w', cs2)" by blast
  from Remove_real [OF r] g show ?thesis by blast
qed

lemma writeContents_probe:
  assumes "(case Contents t of Inl err \<Rightarrow> failWith err
            | Inr contents \<Rightarrow> invoke (CallWriteFile p contents perm)
                 (WriteFile (RealSystem run) p contents perm)) w1 = (None, w', cs)"
  shows "\<exists>c. Contents t = Inr c \<and>
     GetActualStateEntry H w' p = Inr (ActualStateFile p perm \<lparr>Contents = Inr c, ContentsSHA256 = Inr (H c)\<rparr>)"
proof (cases "Contents t")
  case (Inl e)
  with assms show ?thesis by (simp add: failWith_def)
next
  case (Inr c)
  with assms have "realWriteFile p c perm w1 = (None, w')"
    by (simp add: RealSystem_simps invoke_None)
  with Inr show ?thesis by (simp add: probe_write)
qed

lemma file_equal_after_write:
  assumes "hashedBy H t" and "Contents t = Inr c"
  shows "TargetStateFile_Equal t perm
     (ActualStateFile p perm \<lparr>Contents = Inr c, ContentsSHA256 = Inr (H c)\<rparr>) umask = (True, None)"
  using assms by (simp add: TargetStateFile_Equal_def hashedBy_def umaskPermEqual_same)

lemma file_ok:
  assumes "GetActualStateEntry H w p = Inr a" and "hashedBy H t"
      and "TargetStateFile_Apply (RealSystem run) t perm a umask w = (None, w', cs)"
  shows "\<exists>a'. GetActualStateEntry H w' p = Inr a' \<and> TargetStateFile_Equal t perm a' umask = (True, None)"
  using assms(1)
proof (cases rule: probe_cases)
  case isAbsent
  with assms(3) obtain w1 cs2 where
    "(case Contents t of Inl err \<Rightarrow> failWith err
      | Inr contents \<Rightarrow> invoke (CallWriteFile p contents perm)
          (WriteFile (RealSystem run) p contents perm)) w1 = (None, w', cs2)"
    by (auto simp: TargetStateFile_Apply_def cong: sum.case_cong dest: Remove_then)
  from writeContents_probe [where H = H, OF this] assms(2) show ?thesis
    by (auto simp: file_equal_after_write)
next
  case (isDir perm0)
  with assms(3) obtain w1 cs2 where
    "(case Contents t of Inl err \<Rightarrow> failWith err
      | Inr contents \<Rightarrow> invoke (CallWriteFile p contents perm)
          (WriteFile (RealSystem run) p contents perm)) w1 = (None, w', cs2)"
    by (auto simp: TargetStateFile_Apply_def cong: sum.case_cong dest: Remove_then)
  from writeContents_probe [where H = H, OF this] assms(2) show ?thesis
    by (auto simp: file_equal_after_write)
next
  case (isSymlink l)
  with assms(3) obtain w1 cs2 where
    "(case Contents t of Inl err \<Rightarrow> failWith err
      | Inr contents \<Rightarrow> invoke (CallWriteFile p contents perm)
          (WriteFile (RealSystem run) p contents perm)) w1 = (None, w', cs2)"
    by (auto simp: TargetStateFile_Apply_def cong: sum.case_cong dest: Remove_then)
  from writeContents_probe [where H = H, OF this] assms(2) show ?thesis
    by (auto simp: file_equal_after_write)
next
  case (isFile perm0 c)
  show ?thesis
  proof (cases "ContentsSHA256 t")
    case (Inl e)
    with isFile assms(3) show ?thesis by (simp add: TargetStateFile_Apply_def failWith_def)
  next
    case (Inr h)
    show ?thesis
    proof (cases "H c = h")
      case same: True
      show ?thesis
      proof (cases "umaskPermEqual perm0 perm umask")
        case True
        with same Inr isFile assms show ?thesis
          by (simp add: TargetStateFile_Apply_def TargetStateFile_Equal_def succeed_def)
      next
        case False
        with same Inr isFile assms(3) have "realChmod p perm w = (None, w')"
          by (simp add: TargetStateFile_Apply_def RealSystem_simps invoke_None)
        from probe_chmod_file [where H = H, OF isFile(1) this] same Inr show ?thesis
          by (simp add: TargetStateFile_Equal_def umaskPermEqual_same)
      qed
    next
      case False
      with Inr isFile assms(3) have
        "(case Contents t of Inl err \<Rightarrow> failWith err
          | Inr contents \<Rightarrow> invoke (CallWriteFile p contents perm)
              (WriteFile (RealSystem run) p contents perm)) w = (None, w', cs)"
        by (simp add: TargetStateFile_Apply_def cong: sum.case_cong)
      from writeContents_probe [where H = H, OF this] assms(2) show ?thesis
        by (auto simp: file_equal_after_write)
    qed
  qed
qed

lemma present_ok:
  assumes "GetActualStateEntry H w p = Inr a"
      and "TargetStatePresent_Apply (RealSystem run) t perm a umask w = (None, w', cs)"
  shows "\<exists>a'. GetActualStateEntry H w' p = Inr a' \<and> TargetStatePresent_Equal perm a' umask = (True, None)"
  using assms(1)
proof (cases rule: probe_cases)
  case isAbsent
  with assms(2) obtain w1 cs2 where
    "(case Contents t of Inl err \<Rightarrow> failWith err
      | Inr contents \<Rightarrow> invoke (CallWriteFile p contents perm)
          (WriteFile (RealSystem run) p contents perm)) w1 = (None, w', cs2)"
    by (auto simp: TargetStatePresent_Apply_def cong: sum.case_cong dest: Remove_then)
  from writeContents_probe [where H = H, OF this] show ?thesis
    by (auto simp: TargetStatePresent_Equal_def umaskPermEqual_same)
next
  case (isDir perm0)
  with assms(2) obtain w1 cs2 where
    "(case Contents t of Inl err \<Rightarrow> failWith err
      | Inr contents \<Rightarrow> invoke (CallWriteFile p contents perm)
          (WriteFile (RealSystem run) p contents perm)) w1 = (None, w', cs2)"
    by (auto simp: TargetStatePresent_Apply_def cong: sum.case_cong dest: Remove_then)
  from writeContents_probe [where H = H, OF this] show ?thesis
    by (auto simp: TargetStatePresent_Equal_def umaskPermEqual_same)
next
  case (isSymlink l)
  with assms(2) obtain w1 cs2 where
    "(case Contents t of Inl err \<Rightarrow> failWith err
      | Inr contents \<Rightarrow> invoke (CallWriteFile p contents perm)
          (WriteFile (RealSystem run) p contents perm)) w1 = (None, w', cs2)"
    by (auto simp: TargetStatePresent_Apply_def cong: sum.case_cong dest: Remove_then)
  from writeContents_probe [where H = H, OF this] show ?thesis
    by (auto simp: TargetStatePresent_Equal_def umaskPermEqual_same)
next
  case (isFile perm0 c)
  show ?thesis
  proof (cases "umaskPermEqual perm0 perm umask")
    case True
    with isFile assms show ?thesis
      by (simp add: TargetStatePresent_Apply_def TargetStatePresent_Equal_def succeed_def)
  next
    case False
    with isFile assms(2) have "realChmod p perm w = (None, w')"
      by (simp add: TargetStatePresent_Apply_def RealSystem_simps invoke_None)
    from probe_chmod_file [where H = H, OF isFile(1) this] show ?thesis
      by (simp add: TargetStatePresent_Equal_def umaskPermEqual_same)
  qed
qed

lemma replace_probe:
  assumes "(case Linkname t of Inl err \<Rightarrow> failWith err
            | Inr linkname \<Rightarrow> andThen (Remove (RealSystem run) a)
                (invoke (CallWriteSymlink linkname p) (WriteSymlink (RealSystem run) linkname p))) w
           = (None, w', cs)"
  shows "\<exists>l. Linkname t = Inr l \<and>
     GetActualStateEntry H w' p = Inr (ActualStateSymlink p \<lparr>Linkname = Inr l\<rparr>)"
proof (cases "Linkname t")
  case (Inl e)
  with assms show ?thesis by (simp add: failWith_def)
next
  case (Inr l)
  with assms obtain w1 where "realWriteSymlink l p w1 = (None, w')"
    by (auto simp: RealSystem_simps dest!: Remove_then invoke_None)
  with Inr show ?thesis by (simp add: probe_symlink)
qed

lemma symlink_equal_after: 
  "Linkname t = Inr l \<Longrightarrow>
   TargetStateSymlink_Equal t (ActualStateSymlink p \<lparr>Linkname = Inr l\<rparr>) umask = (True, None)"
  by (simp add: TargetStateSymlink_Equal_def)

lemma symlink_ok:
  assumes "GetActualStateEntry H w p = Inr a"
      and "TargetStateSymlink_Apply (RealSystem run) t a umask w = (None, w', cs)"
  shows "\<exists>a'. GetActualStateEntry H w' p = Inr a' \<and> TargetStateSymlink_Equal t a' umask = (True, None)"
  using assms(1)
proof (cases rule: probe_cases)
  case isAbsent
  with assms(2) have
    "(case Linkname t of Inl err \<Rightarrow> failWith err
      | Inr linkname \<Rightarrow> andThen (Remove (RealSystem run) a)
          (invoke (CallWriteSymlink linkname p) (WriteSymlink (RealSystem run) linkname p))) w
     = (None, w', cs)"
    by (simp add: TargetStateSymlink_Apply_def cong: sum.case_cong)
  from replace_probe [where H = H, OF this] show ?thesis
    by (auto simp: symlink_equal_after)
next
  case (isDir perm0)
  with assms(2) have
    "(case Linkname t of Inl err \<Rightarrow> failWith err
      | Inr linkname \<Rightarrow> andThen (Remove (RealSystem run) a)
          (invoke (CallWriteSymlink linkname p) (WriteSymlink (RealSystem run) linkname p))) w
     = (None, w', cs)"
    by (simp add: TargetStateSymlink_Apply_def cong: sum.case_cong)
  from replace_probe [where H = H, OF this] show ?thesis
    by (auto simp: symlink_equal_after)
next
  case (isFile perm0 c)
  with assms(2) have
    "(case Linkname t of Inl err \<Rightarrow> failWith err
      | Inr linkname \<Rightarrow> andThen (Remove (RealSystem run) a)
          (invoke (CallWriteSymlink linkname p) (WriteSymlink (RealSystem run) linkname p))) w
     = (None, w', cs)"
    by (simp add: TargetStateSymlink_Apply_def cong: sum.case_cong)
  from replace_probe [where H = H, OF this] show ?thesis
    by (auto simp: symlink_equal_after)
next
  case (isSymlink l0)
  show ?thesis
  proof (cases "Linkname t")
    case (Inl e)
    with isSymlink assms(2) show ?thesis by (simp add: TargetStateSymlink_Apply_def failWith_def)
  next
    case (Inr l)
    show ?thesis
    proof (cases "l0 = l")
      case True
      with Inr isSymlink assms show ?thesis
        by (simp add: TargetStateSymlink_Apply_def TargetStateSymlink_Equal_def succeed_def)
    next
      case False
      with Inr isSymlink assms(2) have
        "(case Linkname t of Inl err \<Rightarrow> failWith err
          | Inr linkname \<Rightarrow> andThen (Remove (RealSystem run) a)
              (invoke (CallWriteSymlink linkname p) (WriteSymlink (RealSystem run) linkname p))) w
         = (None, w', cs)"
        by (simp add: TargetStateSymlink_Apply_def cong: sum.case_cong)
      from replace_probe [where H = H, OF this] show ?thesis
        by (auto simp: symlink_equal_after)
    qed
  qed
qed

lemma andThen_frame:
  assumes "andThen f g w = (e, w', cs)"
      and "\<And>w1 e1 w2 c1. f w1 = (e1, w2, c1) \<Longrightarrow> P w2 = P w1"
      and "\<And>w1 e1 w2 c1. g w1 = (e1, w2, c1) \<Longrightarrow> P w2 = P w1"
  shows "P w' = P w"
proof -
  obtain e1 w1 c1 where f: "f w = (e1, w1, c1)" by (cases "f w") auto
  show ?thesis
  proof (cases e1)
    case None
    obtain e2 w2 c2 where g: "g w1 = (e2, w2, c2)" by (cases "g w1") auto
    from None f g assms(1) have "w' = w2" by (simp add: andThen_def)
    with assms(2) [OF f] assms(3) [OF g] show ?thesis by simp
  next
    case (Some err)
    with f assms(1) have "w' = w1" by (simp add: andThen_def)
    with assms(2) [OF f] show ?thesis by simp
  qed
qed

lemma runScript_files:
  "invoke c (RunScript (RealSystem run) name dir contents) w = (e, w', cs) \<Longrightarrow> files w' = files w"
  by (auto simp: invoke_def RealSystem_simps realRunScript_def)

lemma set_files:
  "invoke c (PersistentStateSet (RealSystem run) b k v) w = (e, w', cs) \<Longrightarrow> files w' = files w"
  by (auto simp: invoke_def RealSystem_simps realSet_def)

lemma record_files:
  assumes "(if once then (case jsonMarshal rt r of Inl err \<Rightarrow> failWith err
              | Inr v \<Rightarrow> invoke (CallSet b k v) (PersistentStateSet (RealSystem run) b k v))
            else succeed) w = (e, w', cs)"
  shows "files w' = files w"
proof (cases once)
  case False
  with assms show ?thesis by (simp add: succeed_def)
next
  case True
  show ?thesis
  proof (cases "jsonMarshal rt r")
    case (Inl err)
    with True assms show ?thesis by (simp add: failWith_def)
  next
    case (Inr v)
    with True assms show ?thesis by (simp add: set_files)
  qed
qed

lemma runAndRecord_files:
  assumes "runAndRecord rt (RealSystem run) t name once key a w = (e, w', cs)"
  shows "files w' = files w"
proof (cases "Contents t")
  case (Inl err)
  with assms show ?thesis by (simp add: runAndRecord_def failWith_def)
next
  case (Inr contents)
  show ?thesis
  proof (cases "isEmpty contents")
    case True
    with Inr assms show ?thesis by (simp add: runAndRecord_def succeed_def)
  next
    case False
    with Inr assms show ?thesis
      unfolding runAndRecord_def
      by (simp only: sum.case if_False) (erule andThen_frame, erule runScript_files, erule record_files)
  qed
qed

lemma script_files:
  assumes "TargetStateScript_Apply rt (RealSystem run) t name once a umask w = (e, w', cs)"
  shows "files w' = files w"
proof (cases once)
  case False
  with assms show ?thesis by (simp add: TargetStateScript_Apply_def runAndRecord_files)
next
  case True
  show ?thesis
  proof (cases "ContentsSHA256 t")
    case (Inl err)
    with True assms show ?thesis by (simp add: TargetStateScript_Apply_def failWith_def)
  next
    case (Inr h)
    show ?thesis
    proof (cases "persistentState w (ScriptOnceStateBucket, EncodeToString h)")
      case None
      with True Inr assms show ?thesis
        by (auto simp: TargetStateScript_Apply_def RealSystem_simps realGet_def Let_def
              split: prod.splits dest: runAndRecord_files)
    next
      case (Some v)
      with True Inr assms show ?thesis
        by (simp add: TargetStateScript_Apply_def RealSystem_simps realGet_def)
    qed
  qed
qed

lemma probe_files: "files w' = files w \<Longrightarrow> GetActualStateEntry H w' p = GetActualStateEntry H w p"
  by (simp add: GetActualStateEntry_def)


subsection \<open>The persistent state only grows\<close>

lemma andThen_rel:
  assumes "andThen f g w = (e, w', cs)"
      and "\<And>w1 e1 w2 c1. f w1 = (e1, w2, c1) \<Longrightarrow> dom (P w1) \<subseteq> dom (P w2)"
      and "\<And>w1 e1 w2 c1. g w1 = (e1, w2, c1) \<Longrightarrow> dom (P w1) \<subseteq> dom (P w2)"
  shows "dom (P w) \<subseteq> dom (P w')"
proof -
  obtain e1 w1 c1 where f: "f w = (e1, w1, c1)" by (cases "f w") auto
  show ?thesis
  proof (cases e1)
    case None
    obtain e2 w2 c2 where g: "g w1 = (e2, w2, c2)" by (cases "g w1") auto
    from None f g assms(1) have "w' = w2" by (simp add: andThen_def)
    with assms(2) [OF f] assms(3) [OF g] show ?thesis by blast
  next
    case (Some err)
    with f assms(1) have "w' = w1" by (simp add: andThen_def)
    with assms(2) [OF f] show ?thesis by simp
  qed
qed

lemma store_frame:
  "persistentState (snd (realChmod p perm w)) = persistentState w"
  "persistentState (snd (realMkdir p perm w)) = persistentState w"
  "persistentState (snd (realRemoveAll p w)) = persistentState w"
  "persistentState (snd (realRename old new w)) = persistentState w"
  "persistentState (snd (realRunScript run name dir contents w)) = persistentState w"
  "persistentState (snd (realWriteFile p contents perm w)) = persistentState w"
  "persistentState (snd (realWriteSymlink l p w)) = persistentState w"
  by (simp_all add: realChmod_def realMkdir_def realRemoveAll_def realRename_def realRunScript_def
        realWriteFile_def realWriteSymlink_def split: option.splits node.splits)

lemma invoke_snd: "invoke c f w = (e, w', cs) \<Longrightarrow> w' = snd (f w)"
  by (auto simp: invoke_def split: prod.splits)

lemma invoke_store:
  assumes "invoke c f w = (e, w', cs)" and "persistentState (snd (f w)) = persistentState w"
  shows "dom (persistentState w) \<subseteq> dom (persistentState w')"
  using invoke_snd [OF assms(1)] assms(2) by simp

lemma Remove_store:
  "Remove (RealSystem run) a w = (e, w', cs) \<Longrightarrow> dom (persistentState w) \<subseteq> dom (persistentState w')"
  by (cases a) (auto simp: Remove_def succeed_def RealSystem_simps store_frame dest!: invoke_snd)

lemma growsStore_succeed: "growsStore succeed"
  by (simp add: growsStore_def succeed_def)

lemma growsStore_failWith: "growsStore (failWith e)"
  by (simp add: growsStore_def failWith_def)

lemma growsStore_invoke:
  "(\<And>w. persistentState (snd (f w)) = persistentState w) \<Longrightarrow> growsStore (invoke c f)"
  unfolding growsStore_def by (intro allI impI) (erule invoke_store, simp)

lemma growsStore_set: "growsStore (invoke c (realSet b k v))"
  unfolding growsStore_def by (auto simp: realSet_def dest!: invoke_snd)

lemma growsStore_andThen: "growsStore f \<Longrightarrow> growsStore g \<Longrightarrow> growsStore (andThen f g)"
  unfolding growsStore_def
  by (intro allI impI, erule andThen_rel [where P = persistentState]) blast+

lemma growsStore_Remove: "growsStore (Remove (RealSystem run) a)"
  unfolding growsStore_def by (intro allI impI) (erule Remove_store)

lemma growsStore_sum:
  "(\<And>e. growsStore (f e)) \<Longrightarrow> (\<And>v. growsStore (g v)) \<Longrightarrow> growsStore (case_sum f g x)"
  by (cases x) simp_all

lemma growsStore_if: "growsStore f \<Longrightarrow> growsStore g \<Longrightarrow> growsStore (if b then f else g)"
  by simp

lemmas growsStore_intros = growsStore_succeed growsStore_failWith growsStore_andThen
  growsStore_Remove growsStore_sum growsStore_if growsStore_set

lemma growsStore_Absent: "growsStore (TargetStateAbsent_Apply (RealSystem run) a u)"
  unfolding TargetStateAbsent_Apply_def RealSystem_simps
  by (cases a) (auto intro!: growsStore_intros growsStore_invoke simp: store_frame)

lemma growsStore_Dir: "growsStore (TargetStateDir_Apply (RealSystem run) perm a u)"
  unfolding TargetStateDir_Apply_def RealSystem_simps
  by (cases a) (auto intro!: growsStore_intros growsStore_invoke simp: store_frame)

lemma growsStore_File: "growsStore (TargetStateFile_Apply (RealSystem run) t perm a u)"
  unfolding TargetStateFile_Apply_def RealSystem_simps Let_def
  by (cases a) (auto intro!: growsStore_intros growsStore_invoke simp: store_frame)

lemma growsStore_Present: "growsStore (TargetStatePresent_Apply (RealSystem run) t perm a u)"
  unfolding TargetStatePresent_Apply_def RealSystem_simps
  by (cases a) (auto intro!: growsStore_intros growsStore_invoke simp: store_frame)

lemma growsStore_RenameDir: "growsStore (TargetStateRenameDir_Apply (RealSystem run) old new a u)"
  unfolding TargetStateRenameDir_Apply_def RealSystem_simps Let_def
  by (auto intro!: growsStore_intros growsStore_invoke simp: store_frame)

lemma growsStore_Symlink: "growsStore (TargetStateSymlink_Apply (RealSystem run) t a u)"
  unfolding TargetStateSymlink_Apply_def RealSystem_simps Let_def
  by (cases a) (auto intro!: growsStore_intros growsStore_invoke simp: store_frame)

lemma growsStore_runAndRecord: "growsStore (runAndRecord rt (RealSystem run) t name once key a)"
  unfolding runAndRecord_def RealSystem_simps
  by (auto intro!: growsStore_intros growsStore_invoke simp: store_frame)

lemma growsStoreD:
  "growsStore f \<Longrightarrow> f w = (e, w', cs) \<Longrightarrow> k \<in> dom (persistentState w) \<Longrightarrow> k \<in> dom (persistentState w')"
  unfolding growsStore_def by blast

lemma Script_Apply_once:
  assumes "ContentsSHA256 t = Inr d"
  shows "TargetStateScript_Apply rt (RealSystem run) t name True a u w =
     (case persistentState w (ScriptOnceStateBucket, EncodeToString d) of
        Some v \<Rightarrow> (None, w, [CallGet ScriptOnceStateBucket (EncodeToString d)])
      | None \<Rightarrow> (case runAndRecord rt (RealSystem run) t name True (EncodeToString d) a w of
           (e, w', cs) \<Rightarrow> (e, w', CallGet ScriptOnceStateBucket (EncodeToString d) # cs)))"
  using assms
  by (simp add: TargetStateScript_Apply_def RealSystem_simps realGet_def Let_def split: option.splits)

lemma growsStore_Script: "growsStore (TargetStateScript_Apply rt (RealSystem run) t name once a u)"
proof (cases once)
  case False
  have "TargetStateScript_Apply rt (RealSystem run) t name False a u
      = runAndRecord rt (RealSystem run) t name False [] a"
    by (rule ext) (simp add: TargetStateScript_Apply_def)
  with False show ?thesis by (simp add: growsStore_runAndRecord)
next
  case True
  show ?thesis
  proof (cases "ContentsSHA256 t")
    case (Inl err)
    with True show ?thesis
      by (simp add: growsStore_def TargetStateScript_Apply_def failWith_def)
  next
    case (Inr d)
    from True show ?thesis
      unfolding growsStore_def
      by (auto simp: Script_Apply_once [OF Inr] split: option.splits prod.splits
            dest: growsStoreD [OF growsStore_runAndRecord])
  qed
qed

lemma growsStore_Apply: "growsStore (Apply rt (RealSystem run) t a u)"
  by (cases t)
     (simp_all add: growsStore_Absent growsStore_Dir growsStore_File growsStore_Present
        growsStore_RenameDir growsStore_Script growsStore_Symlink)

lemma onceDigestD:
  "onceDigest t = Some d \<Longrightarrow> \<exists>lc name. t = TargetStateScript lc name True \<and> ContentsSHA256 lc = Inr d"
  by (auto simp: onceDigest_def split: TargetStateEntry.splits if_splits sum.splits)

lemma recorded_no_run:
  assumes "onceDigest t = Some d"
      and "(ScriptOnceStateBucket, EncodeToString d) \<in> dom (persistentState w)"
      and "Apply rt (RealSystem run) t a u w = (e, w', cs)"
  shows "\<not> list_ex isRunScript cs"
proof -
  from onceDigestD [OF assms(1)] obtain lc name
    where t: "t = TargetStateScript lc name True" and d: "ContentsSHA256 lc = Inr d" by blast
  from assms(2,3) show ?thesis
    by (auto simp: t Script_Apply_once [OF d] isRunScript_def)
qed

lemma runAndRecord_ran:
  assumes "runAndRecord rt (RealSystem run) t name True key a w = (None, w', cs)"
      and "list_ex isRunScript cs"
  shows "(ScriptOnceStateBucket, key) \<in> dom (persistentState w')"
proof (cases "Contents t")
  case (Inl err)
  with assms show ?thesis by (simp add: runAndRecord_def failWith_def)
next
  case (Inr contents)
  show ?thesis
  proof (cases "isEmpty contents")
    case True
    with Inr assms show ?thesis by (simp add: runAndRecord_def succeed_def)
  next
    case False
    with Inr assms(1) obtain w1 cs1 cs2 where
      "(case jsonMarshal rt \<lparr>Name = name, RunAt = timeNow rt\<rparr> of
          Inl err \<Rightarrow> failWith err
        | Inr v \<Rightarrow> invoke (CallSet ScriptOnceStateBucket key v)
            (PersistentStateSet (RealSystem run) ScriptOnceStateBucket key v)) w1 = (None, w', cs2)"
      by (auto simp: runAndRecord_def dest!: andThen_None)
    then show ?thesis
      by (auto simp: failWith_def RealSystem_simps realSet_def split: sum.splits dest!: invoke_None)
  qed
qed

lemma ran_recorded:
  assumes "Apply rt (RealSystem run) t a u w = (e, w', cs)" and "ranScript d (t, e, cs)"
  shows "(ScriptOnceStateBucket, EncodeToString d) \<in> dom (persistentState w')"
proof -
  from assms(2) have od: "onceDigest t = Some d" and e: "e = None" and r: "list_ex isRunScript cs"
    by (simp_all add: ranScript_def)
  from onceDigestD [OF od] obtain lc name
    where t: "t = TargetStateScript lc name True" and d: "ContentsSHA256 lc = Inr d" by blast
  show ?thesis
  proof (cases "persistentState w (ScriptOnceStateBucket, EncodeToString d)")
    case (Some v)
    with assms(1) r show ?thesis by (auto simp: t Script_Apply_once [OF d] isRunScript_def)
  next
    case None
    with assms(1) e r obtain cs' where
      "runAndRecord rt (RealSystem run) lc name True (EncodeToString d) a w = (None, w', cs')"
      "list_ex isRunScript cs'"
      by (auto simp: t Script_Apply_once [OF d] isRunScript_def split: prod.splits)
    then show ?thesis by (rule runAndRecord_ran)
  qed
qed

lemma recorded_never_runs:
  "(ScriptOnceStateBucket, EncodeToString d) \<in> dom (persistentState w) \<Longrightarrow>
   filter (ranScript d) (applyAll (RealSystem run) steps w) = []"
proof (induction steps arbitrary: w)
  case Nil
  then show ?case by simp
next
  case (Cons st steps)
  obtain rt t a u where st: "st = (rt, t, a, u)" by (cases st) auto
  obtain e w' cs where ap: "Apply rt (RealSystem run) t a u w = (e, w', cs)"
    by (cases "Apply rt (RealSystem run) t a u w") auto
  from growsStoreD [OF growsStore_Apply ap Cons.prems]
  have "filter (ranScript d) (applyAll (RealSystem run) steps w') = []" by (rule Cons.IH)
  moreover have "\<not> ranScript d (t, e, cs)"
    using recorded_no_run [OF _ Cons.prems ap] by (auto simp: ranScript_def)
  ultimately show ?case by (simp add: st ap)
qed

lemma at_most_one_run:
  "length (filter (ranScript d) (applyAll (RealSystem run) steps w)) \<le> 1"
proof (induction steps arbitrary: w)
  case Nil
  then show ?case by simp
next
  case (Cons st steps)
  obtain rt t a u where st: "st = (rt, t, a, u)" by (cases st) auto
  obtain e w' cs where ap: "Apply rt (RealSystem run) t a u w = (e, w', cs)"
    by (cases "Apply rt (RealSystem run) t a u w") auto
  show ?case
  proof (cases "ranScript d (t, e, cs)")
    case True
    from recorded_never_runs [OF ran_recorded [OF ap True]]
    show ?thesis by (simp add: st ap True)
  next
    case False
    with Cons.IH [of w'] show ?thesis by (simp add: st ap)
  qed
qed

lemma recorded_never_invoked:
  "(ScriptOnceStateBucket, EncodeToString d) \<in> dom (persistentState w) \<Longrightarrow>
   filter (invokedFor d) (applyAll (RealSystem run) steps w) = []"
proof (induction steps arbitrary: w)
  case Nil
  then show ?case by simp
next
  case (Cons st steps)
  obtain rt t a u where st: "st = (rt, t, a, u)" by (cases st) auto
  obtain e w' cs where ap: "Apply rt (RealSystem run) t a u w = (e, w', cs)"
    by (cases "Apply rt (RealSystem run) t a u w") auto
  from growsStoreD [OF growsStore_Apply ap Cons.prems]
  have "filter (invokedFor d) (applyAll (RealSystem run) steps w') = []" by (rule Cons.IH)
  moreover have "\<not> invokedFor d (t, e, cs)"
    using recorded_no_run [OF _ Cons.prems ap] by (auto simp: invokedFor_def)
  ultimately show ?case by (simp add: st ap)
qed

lemma no_run_after_success:
  "i < length (applyAll (RealSystem run) steps w) \<Longrightarrow>
   ranScript d (applyAll (RealSystem run) steps w ! i) \<Longrightarrow>
   filter (invokedFor d) (drop (Suc i) (applyAll (RealSystem run) steps w)) = []"
proof (induction steps arbitrary: w i)
  case Nil
  then show ?case by simp
next
  case (Cons st steps)
  obtain rt t a u where st: "st = (rt, t, a, u)" by (cases st) auto
  obtain e w' cs where ap: "Apply rt (RealSystem run) t a u w = (e, w', cs)"
    by (cases "Apply rt (RealSystem run) t a u w") auto
  have outs: "applyAll (RealSystem run) (st # steps) w = (t, e, cs) # applyAll (RealSystem run) steps w'"
    by (simp add: st ap)
  show ?case
  proof (cases i)
    case 0
    with Cons.prems(2) have "ranScript d (t, e, cs)" by (simp add: outs)
    from recorded_never_invoked [OF ran_recorded [OF ap this]] 0 show ?thesis
      by (simp add: outs)
  next
    case (Suc k)
    with Cons.prems have "k < length (applyAll (RealSystem run) steps w')"
      and "ranScript d (applyAll (RealSystem run) steps w' ! k)" by (simp_all add: outs)
    from Cons.IH [OF this] Suc show ?thesis by (simp add: outs)
  qed
qed

lemma storeKeys_append: "storeKeys (xs @ ys) = storeKeys xs @ storeKeys ys"
  by (induction xs rule: storeKeys.induct) simp_all

lemma runAndRecord_keys:
  "set (storeKeys (snd (snd (runAndRecord rt sys t name once key a s)))) \<subseteq> {(ScriptOnceStateBucket, key)}"
  by (auto simp: runAndRecord_def m_defs storeKeys_append split: sum.splits prod.splits option.splits if_splits)

lemma script_keys:
  assumes "ContentsSHA256 lc = Inr d"
  shows "set (storeKeys (snd (snd (TargetStateScript_Apply rt sys lc name True a u s))))
       = {(ScriptOnceStateBucket, EncodeToString d)}"
  using assms runAndRecord_keys [of rt sys lc name True "EncodeToString d" a s]
  by (auto simp: TargetStateScript_Apply_def Let_def storeKeys_append split: sum.splits option.splits prod.splits)

lemma hexDigit_lower: "hexDigit n \<in> set ''0123456789abcdef''"
  unfolding hexDigit_def by (rule nth_mem) simp

lemma EncodeToString_lower: "set (EncodeToString h) \<subseteq> set ''0123456789abcdef''"
  unfolding EncodeToString_def using hexDigit_lower by (induction h) auto

lemma EncodeToString_length: "length (EncodeToString h) = 2 * length h"
  unfolding EncodeToString_def by (induction h) auto

subsection \<open>Reading a password from a stream\<close>


lemma readLoop_line:
  "CHR 0x0A \<in> set bs \<Longrightarrow>
   length (pw @ filter (\<lambda>c. c \<noteq> CHR 0x0D) (takeWhile (\<lambda>c. c \<noteq> CHR 0x0A) bs)) \<le> 1024 \<Longrightarrow>
   fst (readLoop pw bs final) = (pw @ filter (\<lambda>c. c \<noteq> CHR 0x0D) (takeWhile (\<lambda>c. c \<noteq> CHR 0x0A) bs), None)"
proof (induction bs arbitrary: pw)
  case Nil
  then show ?case by simp
next
  case (Cons b bs)
  show ?case
  proof (cases "b = CHR 0x0A")
    case True
    then show ?thesis by simp
  next
    case notLF: False
    show ?thesis
    proof (cases "b = CHR 0x0D")
      case True
      with Cons notLF show ?thesis by simp
    next
      case False
      with Cons.prems notLF have "fst (readLoop (pw @ [b]) bs final)
          = ((pw @ [b]) @ filter (\<lambda>c. c \<noteq> CHR 0x0D) (takeWhile (\<lambda>c. c \<noteq> CHR 0x0A) bs), None)"
        by (intro Cons.IH) auto
      with False notLF Cons.prems show ?thesis by simp
    qed
  qed
qed

lemma readLoop_eof:
  "CHR 0x0A \<notin> set bs \<Longrightarrow>
   length (pw @ filter (\<lambda>c. c \<noteq> CHR 0x0D) bs) \<le> 1024 \<Longrightarrow>
   fst (readLoop pw bs final) =
     (pw @ filter (\<lambda>c. c \<noteq> CHR 0x0D) bs,
      if final = EOF \<and> pw @ filter (\<lambda>c. c \<noteq> CHR 0x0D) bs \<noteq> [] then None else Some final)"
proof (induction bs arbitrary: pw)
  case Nil
  then show ?case by simp
next
  case (Cons b bs)
  show ?case
  proof (cases "b = CHR 0x0D")
    case True
    with Cons show ?thesis by simp
  next
    case False
    with Cons.prems have "fst (readLoop (pw @ [b]) bs final) =
        ((pw @ [b]) @ filter (\<lambda>c. c \<noteq> CHR 0x0D) bs,
         if final = EOF \<and> (pw @ [b]) @ filter (\<lambda>c. c \<noteq> CHR 0x0D) bs \<noteq> [] then None else Some final)"
      by (intro Cons.IH) auto
    with False Cons.prems show ?thesis by auto
  qed
qed

lemma readLoop_too_long:
  "length pw \<le> 1024 \<Longrightarrow>
   length (pw @ filter (\<lambda>c. c \<noteq> CHR 0x0D) (takeWhile (\<lambda>c. c \<noteq> CHR 0x0A) bs)) > 1024 \<Longrightarrow>
   snd (fst (readLoop pw bs final)) = Some PasswordTooLong"
proof (induction bs arbitrary: pw)
  case Nil
  then show ?case by simp
next
  case (Cons b bs)
  show ?case
  proof (cases "b = CHR 0x0A")
    case True
    with Cons.prems show ?thesis by simp
  next
    case notLF: False
    show ?thesis
    proof (cases "b = CHR 0x0D")
      case True
      with Cons notLF show ?thesis by simp
    next
      case False
      show ?thesis
      proof (cases "length (pw @ [b]) > 1024")
        case True
        with False notLF show ?thesis by simp
      next
        case short: False
        with Cons.prems notLF False have "snd (fst (readLoop (pw @ [b]) bs final)) = Some PasswordTooLong"
          by (intro Cons.IH) auto
        with short False notLF show ?thesis by simp
      qed
    qed
  qed
qed


subsection \<open>The cached password\<close>

lemma cached_command:
  "keePassXCPassword pr \<noteq> [] \<Longrightarrow>
   runKeePassXCCLICommand cmdOutput name args pr = (cmdOutput name args (keePassXCPassword pr @ [CHR 0x0A]), pr)"
  by (simp add: runKeePassXCCLICommand_def)

lemma cached_commands:
  "keePassXCPassword pr \<noteq> [] \<Longrightarrow>
   runCommands cmdOutput cmds pr =
     (map (\<lambda>(name, args). cmdOutput name args (keePassXCPassword pr @ [CHR 0x0A])) cmds, pr)"
  by (induction cmds) (auto simp: cached_command)


subsection \<open>Parsing lines into fields\<close>

lemma parseLines_fails:
  "(\<exists>e. parseLines ls data = Inl e) \<longleftrightarrow> (\<exists>l \<in> set ls. FindStringSubmatch l = None)"
  by (induction ls arbitrary: data) (auto split: option.splits)

lemma parseLines_ok:
  "\<forall>l \<in> set ls. FindStringSubmatch l \<noteq> None \<Longrightarrow>
   parseLines ls data = Inr (data ++ map_of (rev (List.map_filter FindStringSubmatch ls)))"
proof (induction ls arbitrary: data)
  case Nil
  then show ?case by (simp add: List.map_filter_simps)
next
  case (Cons l ls)
  then obtain k v where m: "FindStringSubmatch l = Some (k, v)" by auto
  have step: "parseLines (l # ls) data = parseLines ls (data(k \<mapsto> v))" by (simp add: m)
  from Cons have ih: "parseLines ls (data(k \<mapsto> v)) =
      Inr (data(k \<mapsto> v) ++ map_of (rev (List.map_filter FindStringSubmatch ls)))" by simp
  have eq: "data(k \<mapsto> v) ++ map_of (rev (List.map_filter FindStringSubmatch ls))
      = data ++ map_of (rev (List.map_filter FindStringSubmatch (l # ls)))"
    by (rule ext) (simp add: m List.map_filter_simps map_add_def split: option.splits)
  show ?case unfolding step ih eq by (rule refl)
qed

lemma parse_unfold:
  "scanLines output = (tokens, scanErr) \<Longrightarrow>
   parseKeyPassXCOutput output =
     (case parseLines (drop 1 tokens) Map.empty of
        Inl err \<Rightarrow> (None, Some err) | Inr data \<Rightarrow> (Some data, scanErr))"
  by (simp add: parseKeyPassXCOutput_def)


subsection \<open>The walk of the unmanaged listing\<close>

lemma splitSlash_nonempty: "splitSlash p \<noteq> []"
  by (induction p) (auto split: list.splits)

lemma splitSlash_append: "splitSlash (xs @ CHR ''/'' # ys) = splitSlash xs @ splitSlash ys"
proof (induction xs)
  case Nil
  show ?case by simp
next
  case (Cons c xs)
  obtain e es where "splitSlash xs = e # es" using splitSlash_nonempty [of xs] by (cases "splitSlash xs") auto
  with Cons show ?case by simp
qed

lemma splitSlash_plain: "CHR ''/'' \<notin> set name \<Longrightarrow> splitSlash name = [name]"
  by (induction name) auto

lemma cleanElems_append:
  "cleanElems rooted kept (es @ fs) = cleanElems rooted (rev (cleanElems rooted kept es)) fs"
  by (induction rooted kept es rule: cleanElems.induct) (auto split: list.splits)

lemma cleanElems_plain: "plainName name \<Longrightarrow> cleanElems rooted kept [name] = rev kept @ [name]"
  by (simp add: plainName_def)

lemma joinSlash_snoc: "es \<noteq> [] \<Longrightarrow> joinSlash (es @ [name]) = joinSlash es @ ''/'' @ name"
  by (induction es rule: joinSlash.induct) auto

lemma Clean_child:
  assumes "cleanBelowRoot dir" and "plainName name"
  shows "Clean (dir @ ''/'' @ name) = dir @ ''/'' @ name"
proof -
  let ?E = "cleanElems True [] (splitSlash dir)"
  from assms(1) have rooted: "take 1 dir = ''/''" and notroot: "dir \<noteq> ''/''" and cl: "Clean dir = dir"
    by (simp_all add: cleanBelowRoot_def)
  from rooted cl have d: "dir = ''/'' @ joinSlash ?E" by (simp add: Clean_def)
  with notroot have ne: "?E \<noteq> []" by auto
  from rooted have rooted': "take 1 (dir @ ''/'' @ name) = ''/''" by (cases dir) auto
  have "splitSlash (dir @ ''/'' @ name) = splitSlash dir @ [name]"
    using assms(2) by (simp add: splitSlash_append splitSlash_plain plainName_def)
  then have "cleanElems True [] (splitSlash (dir @ ''/'' @ name))
      = cleanElems True (rev ?E) [name]"
    by (simp only: cleanElems_append)
  also have "\<dots> = ?E @ [name]"
    by (simp only: cleanElems_plain [OF assms(2)] rev_rev_ident)
  finally have "cleanElems True [] (splitSlash (dir @ ''/'' @ name)) = ?E @ [name]" .
  with ne have "joinSlash (cleanElems True [] (splitSlash (dir @ ''/'' @ name))) = joinSlash ?E @ ''/'' @ name"
    by (simp add: joinSlash_snoc)
  with rooted' have "Clean (dir @ ''/'' @ name) = ''/'' @ joinSlash ?E @ ''/'' @ name"
    by (simp add: Clean_def)
  with d show ?thesis by simp
qed

lemma pathJoin_child:
  assumes "cleanBelowRoot dir" and "plainName name"
  shows "pathJoin dir name = dir @ ''/'' @ name" and "cleanBelowRoot (dir @ ''/'' @ name)"
proof -
  from assms(1) have "dir \<noteq> []" by (auto simp: cleanBelowRoot_def)
  with Clean_child [OF assms] show "pathJoin dir name = dir @ ''/'' @ name"
    by (simp add: pathJoin_def)
  from assms(1) show "cleanBelowRoot (dir @ ''/'' @ name)"
    unfolding cleanBelowRoot_def using Clean_child [OF assms] by (cases dir) auto
qed

lemma emitted_simps:
  "emitted m ig [] = []"
  "emitted m ig (r # rs) = (if \<not> m r \<and> \<not> ig r then r @ [CHR 0x0A] else []) @ emitted m ig rs"
  "emitted m ig (xs @ ys) = emitted m ig xs @ emitted m ig ys"
  by (simp_all add: emitted_def)

lemma absOf_child: "absOf root (Some (relOf parent name)) = absOf root parent @ ''/'' @ name"
  by (cases parent) (simp_all add: absOf_def relOf_def)

lemma pathJoin_abs:
  assumes "cleanBelowRoot (absOf root parent)" and "plainName name"
  shows "pathJoin (absOf root parent) name = absOf root (Some (relOf parent name))"
    and "cleanBelowRoot (absOf root (Some (relOf parent name)))"
  using pathJoin_child [OF assms] by (simp_all only: absOf_child)

lemma walkFn_below:
  "unmanagedWalkFn root m ig (root @ ''/'' @ rel) isDir None sb =
     (if isDir \<and> (\<not> m rel \<or> ig rel) then SkipDir else Proceed,
      if \<not> m rel \<and> \<not> ig rel then sb @ rel @ [CHR 0x0A] else sb)"
  by (simp add: unmanagedWalkFn_def TrimDirPrefix_def HasPrefix_def Let_def)

lemma walkFn_abs:
  "unmanagedWalkFn root m ig (absOf root (Some rel)) isDir None sb =
     (if isDir \<and> (\<not> m rel \<or> ig rel) then SkipDir else Proceed,
      if \<not> m rel \<and> \<not> ig rel then sb @ rel @ [CHR 0x0A] else sb)"
  unfolding absOf_def option.case by (rule walkFn_below)

lemma walkFn_root: "unmanagedWalkFn root m ig root isDir None sb = (Proceed, sb)"
  by (simp add: unmanagedWalkFn_def)

lemma traced_walkFn_abs:
  "traced (unmanagedWalkFn root m ig) (absOf root (Some rel)) isDir None (v, sb) =
     (if isDir \<and> (\<not> m rel \<or> ig rel) then SkipDir else Proceed,
      v @ [absOf root (Some rel)],
      if \<not> m rel \<and> \<not> ig rel then sb @ rel @ [CHR 0x0A] else sb)"
  by (simp add: traced_def walkFn_abs)

lemma traced_walkEntries_walked:
  "cleanBelowRoot (absOf root parent) \<Longrightarrow> plainEntries entries \<Longrightarrow>
   walkEntries (traced (unmanagedWalkFn root m ig)) (absOf root parent) entries (v, sb)
     = (Proceed, v @ map (\<lambda>rel. absOf root (Some rel)) (walked m ig parent entries),
        sb @ emitted m ig (walked m ig parent entries))"
proof (induction m ig parent entries arbitrary: v sb rule: walked.induct)
  case (1 m ig parent)
  show ?case by (simp add: emitted_simps)
next
  case (2 m ig parent name isDir entries rest)
  let ?rel = "relOf parent name"
  from "2.prems"(2) have plain: "plainName name" and pe: "plainEntries entries"
    and pr: "plainEntries rest" by simp_all
  note pj = pathJoin_abs [OF "2.prems"(1) plain]
  have rel: "(case parent of None \<Rightarrow> name | Some d \<Rightarrow> d @ ''/'' @ name) = ?rel"
    by (simp add: relOf_def)
  note ih2 = "2.IH"(2) [OF rel [symmetric] "2.prems"(1) pr]
  show ?case
  proof (cases "isDir \<and> m ?rel \<and> \<not> ig ?rel")
    case True
    with "2.IH"(1) [OF rel [symmetric] _ pj(2) pe]
    have ih1: "\<And>v sb. walkEntries (traced (unmanagedWalkFn root m ig)) (absOf root (Some ?rel)) entries (v, sb)
       = (Proceed, v @ map (\<lambda>rel. absOf root (Some rel)) (walked m ig (Some ?rel) entries),
          sb @ emitted m ig (walked m ig (Some ?rel) entries))" by simp
    from True show ?thesis
      by (simp add: pj(1) ih1 ih2 rel emitted_simps traced_walkFn_abs Let_def)
  next
    case False
    then show ?thesis
      by (auto simp: pj(1) ih2 rel emitted_simps traced_walkFn_abs Let_def)
  qed
qed

lemma walkEntries_walked:
  "cleanBelowRoot (absOf root parent) \<Longrightarrow> plainEntries entries \<Longrightarrow>
   walkEntries (unmanagedWalkFn root m ig) (absOf root parent) entries sb
     = (Proceed, sb @ emitted m ig (walked m ig parent entries))"
proof (induction m ig parent entries arbitrary: sb rule: walked.induct)
  case (1 m ig parent)
  show ?case by (simp add: emitted_simps)
next
  case (2 m ig parent name isDir entries rest)
  let ?rel = "relOf parent name"
  from "2.prems"(2) have plain: "plainName name" and pe: "plainEntries entries"
    and pr: "plainEntries rest" by simp_all
  note pj = pathJoin_abs [OF "2.prems"(1) plain]
  have rel: "(case parent of None \<Rightarrow> name | Some d \<Rightarrow> d @ ''/'' @ name) = ?rel"
    by (simp add: relOf_def)
  note ih2 = "2.IH"(2) [OF rel [symmetric] "2.prems"(1) pr]
  show ?case
  proof (cases "isDir \<and> m ?rel \<and> \<not> ig ?rel")
    case True
    with "2.IH"(1) [OF rel [symmetric] _ pj(2) pe]
    have ih1: "\<And>sb. walkEntries (unmanagedWalkFn root m ig) (absOf root (Some ?rel)) entries sb
       = (Proceed, sb @ emitted m ig (walked m ig (Some ?rel) entries))" by simp
    from True show ?thesis
      by (simp add: pj(1) ih1 ih2 rel emitted_simps walkFn_abs Let_def)
  next
    case False
    then show ?thesis
      by (auto simp: pj(1) ih2 rel emitted_simps walkFn_abs Let_def)
  qed
qed

lemma runUnmanagedCmd_below_root:
  assumes "cleanBelowRoot absSlashDestDir" and "plainEntries [dest]"
  shows "runUnmanagedCmd absSlashDestDir managed ignored dest
           = Inr (unmanagedListing managed ignored dest)"
    and "fst (snd (walk (traced (unmanagedWalkFn absSlashDestDir managed ignored))
          absSlashDestDir dest ([], [])))
           = absSlashDestDir #
             map (\<lambda>rel. absSlashDestDir @ ''/'' @ rel) (walkedBelow managed ignored dest)"
proof -
  obtain name isDir entries where dest: "dest = Tree name isDir entries" by (cases dest) auto
  from assms(2) have pe: "plainEntries entries" by (simp add: dest)
  from assms(1) have cl: "cleanBelowRoot (absOf absSlashDestDir None)" by (simp add: absOf_def)
  from walkEntries_walked [OF cl pe, of managed ignored "[]"]
  show "runUnmanagedCmd absSlashDestDir managed ignored dest
           = Inr (unmanagedListing managed ignored dest)"
    by (simp add: dest runUnmanagedCmd_def unmanagedListing_def walkedBelow_def walkFn_root
          absOf_def emitted_def)
  from traced_walkEntries_walked [OF cl pe, of managed ignored "[absSlashDestDir]" "[]"]
  show "fst (snd (walk (traced (unmanagedWalkFn absSlashDestDir managed ignored))
          absSlashDestDir dest ([], [])))
           = absSlashDestDir #
             map (\<lambda>rel. absSlashDestDir @ ''/'' @ rel) (walkedBelow managed ignored dest)"
    by (simp add: dest walkedBelow_def traced_def walkFn_root absOf_def)
qed

lemma runUnmanagedCmd_scenario:
  "runUnmanagedCmd ''/home/user'' (\<lambda>name. name = ''managed'') (\<lambda>name. False) scenarioTree
       = Inr (''extra'' @ [CHR 0x0A])
   \<and> fst (snd (walk (traced (unmanagedWalkFn ''/home/user'' (\<lambda>name. name = ''managed'') (\<lambda>name. False)))
        ''/home/user'' scenarioTree ([], [])))
       = [''/home/user'', ''/home/user/extra'', ''/home/user/managed'']"
proof -
  have h1: "cleanBelowRoot ''/home/user''" by (simp add: cleanBelowRoot_def Clean_def)
  have h2: "plainEntries [scenarioTree]" by (simp add: scenarioTree_def plainName_def)
  have h3: "unmanagedListing (\<lambda>name. name = ''managed'') (\<lambda>name. False) scenarioTree = ''extra'' @ [CHR 0x0A]"
    by (simp add: unmanagedListing_def walkedBelow_def scenarioTree_def)
  have h4: "walkedBelow (\<lambda>name. name = ''managed'') (\<lambda>name. False) scenarioTree = [''extra'', ''managed'']"
    by (simp add: walkedBelow_def scenarioTree_def)
  from runUnmanagedCmd_below_root [OF h1 h2, of "\<lambda>name. name = ''managed''" "\<lambda>name. False"] h3 h4
  show ?thesis by simp
qed

subsection \<open>Unfolding the scenarios\<close>

lemmas scenario_defs = scenarioRuntime_def scenarioHash_def emptyWorld_def scriptsSucceed_def
  scriptsFail_def scenarioFile_def scenarioScript_def

lemmas real_defs = RealSystem_def realChmod_def realMkdir_def realRemoveAll_def realRename_def
  realRunScript_def realWriteFile_def realWriteSymlink_def realGet_def realSet_def

lemmas script_defs = TargetStateScript_Apply_def runAndRecord_def isEmpty_def isSpace_def
  Let_def pathDir_def Clean_def ScriptOnceStateBucket_def EncodeToString_def hexDigit_def

section \<open>Properties\<close>

text \<open>
  C1, as amended: for every target-state entry variant except rename-directory, every
  umask, and the backend that carries the operations out as the spec's operation
  table describes them: if \<open>Apply\<close> on the probe of a path succeeds, then \<open>Equal\<close>
  on a fresh probe of that path returns true. A file target's hash is the hash of its
  contents under the function \<open>H\<close> the probe uses. (For rename-directory \<open>Equal\<close>
  is false whatever the actual state: the counterexample below.)
\<close>

theorem Apply_then_Equal:
  assumes "\<not> isRenameDir t" and "targetHashedBy H t"
      and "GetActualStateEntry H w p = Inr a"
      and "Apply rt (RealSystem run) t a umask w = (None, w', cs)"
  shows "\<exists>a'. GetActualStateEntry H w' p = Inr a' \<and> Equal t a' umask = (True, None)"
proof (cases t)
  case TargetStateAbsent
  with assms(4) have "TargetStateAbsent_Apply (RealSystem run) a umask w = (None, w', cs)" by simp
  from absent_ok [OF assms(3) this] TargetStateAbsent show ?thesis by simp
next
  case (TargetStateDir perm)
  with assms(4) have "TargetStateDir_Apply (RealSystem run) perm a umask w = (None, w', cs)" by simp
  from dir_ok [OF assms(3) this] TargetStateDir show ?thesis by simp
next
  case (TargetStateFile lc perm)
  with assms(4) have ap: "TargetStateFile_Apply (RealSystem run) lc perm a umask w = (None, w', cs)"
    by simp
  from TargetStateFile assms(2) have "hashedBy H lc" by (simp add: targetHashedBy_def)
  from file_ok [OF assms(3) this ap] TargetStateFile show ?thesis by simp
next
  case (TargetStatePresent lc perm)
  with assms(4) have "TargetStatePresent_Apply (RealSystem run) lc perm a umask w = (None, w', cs)"
    by simp
  from present_ok [OF assms(3) this] TargetStatePresent show ?thesis by simp
next
  case (TargetStateRenameDir oldName newName)
  with assms(1) show ?thesis by (simp add: isRenameDir_def)
next
  case (TargetStateScript lc name once)
  with assms(4) have "files w' = files w" by (simp add: script_files)
  then have "GetActualStateEntry H w' p = GetActualStateEntry H w p" by (rule probe_files)
  with assms(3) TargetStateScript show ?thesis
    by (simp add: TargetStateScript_Equal_def)
next
  case (TargetStateSymlink l)
  with assms(4) have "TargetStateSymlink_Apply (RealSystem run) l a umask w = (None, w', cs)" by simp
  from symlink_ok [OF assms(3) this] TargetStateSymlink show ?thesis by simp
qed

text \<open>
  The spec's first scenario: a new file is installed into an empty destination, and
  \<open>Equal\<close> holds on the fresh probe.
\<close>

theorem Apply_then_Equal_witness:
  "\<not> isRenameDir scenarioFile \<and> targetHashedBy scenarioHash scenarioFile
   \<and> GetActualStateEntry scenarioHash emptyWorld ''/home/user/a.txt'' = Inr (ActualStateAbsent ''/home/user/a.txt'')
   \<and> fst (Apply scenarioRuntime (RealSystem scriptsSucceed) scenarioFile
            (ActualStateAbsent ''/home/user/a.txt'') 18 emptyWorld) = None
   \<and> (\<exists>a'. GetActualStateEntry scenarioHash
          (fst (snd (Apply scenarioRuntime (RealSystem scriptsSucceed) scenarioFile
            (ActualStateAbsent ''/home/user/a.txt'') 18 emptyWorld))) ''/home/user/a.txt'' = Inr a'
        \<and> Equal scenarioFile a' 18 = (True, None))"
proof -
  have h1: "\<not> isRenameDir scenarioFile" by (simp add: isRenameDir_def scenarioFile_def)
  have h2: "targetHashedBy scenarioHash scenarioFile"
    by (simp add: targetHashedBy_def hashedBy_def scenarioFile_def)
  have h3: "GetActualStateEntry scenarioHash emptyWorld ''/home/user/a.txt'' = Inr (ActualStateAbsent ''/home/user/a.txt'')"
    by (simp add: GetActualStateEntry_def emptyWorld_def)
  have h5: "fst (Apply scenarioRuntime (RealSystem scriptsSucceed) scenarioFile
            (ActualStateAbsent ''/home/user/a.txt'') 18 emptyWorld) = None"
    by (simp add: scenario_defs TargetStateFile_Apply_def m_defs real_defs)
  then have h4: "Apply scenarioRuntime (RealSystem scriptsSucceed) scenarioFile
            (ActualStateAbsent ''/home/user/a.txt'') 18 emptyWorld
      = (None, fst (snd (Apply scenarioRuntime (RealSystem scriptsSucceed) scenarioFile
            (ActualStateAbsent ''/home/user/a.txt'') 18 emptyWorld)),
         snd (snd (Apply scenarioRuntime (RealSystem scriptsSucceed) scenarioFile
            (ActualStateAbsent ''/home/user/a.txt'') 18 emptyWorld)))"
    by (metis prod.collapse)
  from Apply_then_Equal [OF h1 h2 h3 h4] h1 h2 h3 h5 show ?thesis by blast
qed

text \<open>
  A rename of a directory succeeds on the backend, and \<open>Equal\<close> on the fresh probe of
  the path is false.
\<close>

theorem RenameDir_Apply_then_Equal_counterexample:
  "GetActualStateEntry scenarioHash (emptyWorld\<lparr>files := [''/home/user/old'' \<mapsto> NodeDir 493]\<rparr>) ''/home/user/new''
     = Inr (ActualStateAbsent ''/home/user/new'')
   \<and> fst (Apply scenarioRuntime (RealSystem scriptsSucceed) (TargetStateRenameDir ''old'' ''new'')
        (ActualStateAbsent ''/home/user/new'') 18 (emptyWorld\<lparr>files := [''/home/user/old'' \<mapsto> NodeDir 493]\<rparr>)) = None
   \<and> GetActualStateEntry scenarioHash
        (fst (snd (Apply scenarioRuntime (RealSystem scriptsSucceed) (TargetStateRenameDir ''old'' ''new'')
          (ActualStateAbsent ''/home/user/new'') 18 (emptyWorld\<lparr>files := [''/home/user/old'' \<mapsto> NodeDir 493]\<rparr>))))
        ''/home/user/new'' = Inr (ActualStateDir ''/home/user/new'' 493)
   \<and> Equal (TargetStateRenameDir ''old'' ''new'') (ActualStateDir ''/home/user/new'' 493) 18 = (False, None)"
  by (simp add: GetActualStateEntry_def emptyWorld_def TargetStateRenameDir_Apply_def
        TargetStateRenameDir_Equal_def invoke_def real_defs pathDir_def pathJoin_def Clean_def below_def HasPrefix_def)

text \<open>
  C2, as amended: for every script with \<open>once = true\<close> and every backend, the
  persistent-state bucket and key that \<open>Apply\<close> uses are exactly "scriptOnceState"
  and the hex encoding of the hash of the script contents; the encoding is two
  lowercase hexadecimal digits per byte; and in any number of \<open>Apply\<close> calls on one
  persistent state, once an \<open>Apply\<close> of a once-script with contents digest \<open>d\<close> has
  invoked \<open>RunScript\<close> and succeeded, no later \<open>Apply\<close> of a once-script with that
  digest invokes \<open>RunScript\<close>; so at most one such call runs the script and
  succeeds. (A run that fails is not recorded and is repeated by the next \<open>Apply\<close>:
  the counterexample below.)
\<close>

theorem script_once_key_and_runs:
  "(hashedBy H lc \<and> Contents lc = Inr contents \<longrightarrow>
      set (storeKeys (snd (snd (TargetStateScript_Apply rt sys lc name True a u s))))
        = {(''scriptOnceState'', EncodeToString (H contents))})
   \<and> set (EncodeToString d) \<subseteq> set ''0123456789abcdef''
   \<and> length (EncodeToString d) = 2 * length d
   \<and> (i < length (applyAll (RealSystem run) steps w)
        \<and> ranScript d (applyAll (RealSystem run) steps w ! i) \<longrightarrow>
      filter (invokedFor d) (drop (Suc i) (applyAll (RealSystem run) steps w)) = [])
   \<and> length (filter (ranScript d) (applyAll (RealSystem run) steps w)) \<le> 1"
proof -
  have "set (storeKeys (snd (snd (TargetStateScript_Apply rt sys lc name True a u s))))
        = {(''scriptOnceState'', EncodeToString (H contents))}"
    if "hashedBy H lc" and "Contents lc = Inr contents"
  proof -
    from that have "ContentsSHA256 lc = Inr (H contents)" by (simp add: hashedBy_def)
    from script_keys [OF this] show ?thesis by (simp add: ScriptOnceStateBucket_def)
  qed
  with EncodeToString_lower [of d] EncodeToString_length [of d]
    no_run_after_success [of i run steps w d] at_most_one_run [of d run steps w]
  show ?thesis by blast
qed

text \<open>
  The spec's fourth scenario: the first \<open>Apply\<close> looks the key up, runs the script and
  stores the record; the second one only looks the key up.
\<close>

theorem script_once_key_and_runs_witness:
  "hashedBy scenarioHash scenarioScript \<and> Contents scenarioScript = Inr ''echo hi''
   \<and> set (storeKeys (snd (snd (TargetStateScript_Apply scenarioRuntime (RealSystem scriptsSucceed)
         scenarioScript ''setup'' True (ActualStateAbsent ''/home/user/setup'') 18 emptyWorld))))
       = {(''scriptOnceState'', EncodeToString (scenarioHash ''echo hi''))}
   \<and> EncodeToString (scenarioHash ''echo hi'') = ''6968206f686365''
   \<and> set (EncodeToString ''ih ohce'') \<subseteq> set ''0123456789abcdef''
   \<and> length (EncodeToString ''ih ohce'') = 2 * length ''ih ohce''
   \<and> map (\<lambda>(t, e, cs). (e, cs)) (applyAll (RealSystem scriptsSucceed) scenarioSteps emptyWorld)
       = [(None, [CallGet ''scriptOnceState'' ''6968206f686365'',
                  CallRunScript ''setup'' ''/home/user'' ''echo hi'',
                  CallSet ''scriptOnceState'' ''6968206f686365'' ''setup'']),
          (None, [CallGet ''scriptOnceState'' ''6968206f686365''])]
   \<and> 0 < length (applyAll (RealSystem scriptsSucceed) scenarioSteps emptyWorld)
   \<and> ranScript ''ih ohce'' (applyAll (RealSystem scriptsSucceed) scenarioSteps emptyWorld ! 0)
   \<and> filter (invokedFor ''ih ohce'')
         (drop (Suc 0) (applyAll (RealSystem scriptsSucceed) scenarioSteps emptyWorld)) = []
   \<and> length (filter (ranScript ''ih ohce'') (applyAll (RealSystem scriptsSucceed) scenarioSteps emptyWorld)) \<le> 1"
proof -
  have h1: "hashedBy scenarioHash scenarioScript"
    by (simp add: hashedBy_def scenarioScript_def)
  have h2: "Contents scenarioScript = Inr ''echo hi''" by (simp add: scenarioScript_def)
  have h3: "EncodeToString (scenarioHash ''echo hi'') = ''6968206f686365''"
    by (simp add: scenarioHash_def EncodeToString_def hexDigit_def)
  have h4: "map (\<lambda>(t, e, cs). (e, cs)) (applyAll (RealSystem scriptsSucceed) scenarioSteps emptyWorld)
       = [(None, [CallGet ''scriptOnceState'' ''6968206f686365'',
                  CallRunScript ''setup'' ''/home/user'' ''echo hi'',
                  CallSet ''scriptOnceState'' ''6968206f686365'' ''setup'']),
          (None, [CallGet ''scriptOnceState'' ''6968206f686365''])]"
    by (simp add: scenarioSteps_def scenario_defs script_defs real_defs m_defs)
  have h5: "0 < length (applyAll (RealSystem scriptsSucceed) scenarioSteps emptyWorld)"
    by (simp add: scenarioSteps_def split: prod.splits)
  have h6: "ranScript ''ih ohce'' (applyAll (RealSystem scriptsSucceed) scenarioSteps emptyWorld ! 0)"
    by (simp add: scenarioSteps_def scenario_defs script_defs real_defs m_defs ranScript_def
          onceDigest_def isRunScript_def)
  from script_once_key_and_runs [of scenarioHash scenarioScript "''echo hi''" scenarioRuntime
      "RealSystem scriptsSucceed" "''setup''" "ActualStateAbsent ''/home/user/setup''" 18 emptyWorld
      "''ih ohce''" 0 scriptsSucceed scenarioSteps emptyWorld] h1 h2 h3 h4 h5 h6
  show ?thesis by blast
qed

text \<open>
  The same two \<open>Apply\<close> calls on a backend whose scripts fail: both invoke
  \<open>RunScript\<close>, for the same contents digest and the same persistent state.
\<close>

theorem script_once_failed_run_counterexample:
  "map (\<lambda>(t, e, cs). (onceDigest t, e, filter isRunScript cs))
     (applyAll (RealSystem scriptsFail) scenarioSteps emptyWorld)
   = [(Some ''ih ohce'', Some (Failure ''exit status 1''),
         [CallRunScript ''setup'' ''/home/user'' ''echo hi'']),
      (Some ''ih ohce'', Some (Failure ''exit status 1''),
         [CallRunScript ''setup'' ''/home/user'' ''echo hi''])]"
  by (simp add: scenarioSteps_def scenario_defs script_defs real_defs m_defs isRunScript_def
        onceDigest_def)

text \<open>
  C3, as amended: for every backend, when the actual entry is a file whose contents
  hash equals the target's, \<open>TargetStateFile.Apply\<close> issues only \<open>Chmod\<close>, and only
  when the permissions differ under the umask; when the actual entry is a file whose
  hash differs, it issues \<open>WriteFile\<close> alone, with no removal before it; a removal
  comes first, followed by \<open>WriteFile\<close>, when the actual entry is a directory or a
  symlink.
\<close>

theorem TargetStateFile_Apply_calls:
  "(ContentsSHA256 actualContents = Inr h \<and> ContentsSHA256 t = Inr h \<longrightarrow>
      snd (snd (TargetStateFile_Apply sys t perm (ActualStateFile p actualPerm actualContents) umask s))
        = (if umaskPermEqual actualPerm perm umask then [] else [CallChmod p perm]))
   \<and> (ContentsSHA256 actualContents = Inr h \<and> ContentsSHA256 t = Inr h' \<and> h \<noteq> h'
        \<and> Contents t = Inr contents \<longrightarrow>
      snd (snd (TargetStateFile_Apply sys t perm (ActualStateFile p actualPerm actualContents) umask s))
        = [CallWriteFile p contents perm])
   \<and> (Contents t = Inr contents \<and> fst (RemoveAll sys p s) = None \<longrightarrow>
      snd (snd (TargetStateFile_Apply sys t perm (ActualStateDir p actualPerm) umask s))
        = [CallRemoveAll p, CallWriteFile p contents perm]
      \<and> snd (snd (TargetStateFile_Apply sys t perm (ActualStateSymlink p actualLink) umask s))
        = [CallRemoveAll p, CallWriteFile p contents perm])"
  by (auto simp: TargetStateFile_Apply_def m_defs split: prod.splits)

text \<open>
  The spec's second scenario (permissions 0600 against 0644 under umask 0022), a file
  with other contents, and a directory in the place of the file.
\<close>

theorem TargetStateFile_Apply_calls_witness:
  "ContentsSHA256 \<lparr>Contents = Inr ''x'', ContentsSHA256 = Inr (scenarioHash ''x'')\<rparr> = Inr ''x''
   \<and> \<not> umaskPermEqual 384 420 18
   \<and> snd (snd (TargetStateFile_Apply (RealSystem scriptsSucceed)
        \<lparr>Contents = Inr ''x'', ContentsSHA256 = Inr ''x''\<rparr> 420
        (ActualStateFile ''/home/user/b'' 384 \<lparr>Contents = Inr ''x'', ContentsSHA256 = Inr (scenarioHash ''x'')\<rparr>)
        18 emptyWorld))
       = [CallChmod ''/home/user/b'' 420]
   \<and> ''x'' \<noteq> ''y''
   \<and> snd (snd (TargetStateFile_Apply (RealSystem scriptsSucceed)
        \<lparr>Contents = Inr ''y'', ContentsSHA256 = Inr ''y''\<rparr> 420
        (ActualStateFile ''/home/user/b'' 384 \<lparr>Contents = Inr ''x'', ContentsSHA256 = Inr (scenarioHash ''x'')\<rparr>)
        18 emptyWorld))
       = [CallWriteFile ''/home/user/b'' ''y'' 420]
   \<and> fst (RemoveAll (RealSystem scriptsSucceed) ''/home/user/b'' emptyWorld) = None
   \<and> snd (snd (TargetStateFile_Apply (RealSystem scriptsSucceed)
        \<lparr>Contents = Inr ''y'', ContentsSHA256 = Inr ''y''\<rparr> 420
        (ActualStateDir ''/home/user/b'' 384) 18 emptyWorld))
       = [CallRemoveAll ''/home/user/b'', CallWriteFile ''/home/user/b'' ''y'' 420]"
proof -
  have h1: "ContentsSHA256 \<lparr>Contents = Inr ''x'', ContentsSHA256 = Inr (scenarioHash ''x'')\<rparr> = Inr ''x''"
    by (simp add: scenarioHash_def)
  have h2: "\<not> umaskPermEqual 384 420 18" by (simp add: umaskPermEqual_def)
  have h3: "fst (RemoveAll (RealSystem scriptsSucceed) ''/home/user/b'' emptyWorld) = None"
    by (simp add: real_defs)
  have h4: "''x'' \<noteq> ''y''" by simp
  from TargetStateFile_Apply_calls [where
      actualContents = "\<lparr>Contents = Inr ''x'', ContentsSHA256 = Inr (scenarioHash ''x'')\<rparr>"
      and h = "''x''" and t = "\<lparr>Contents = Inr ''x'', ContentsSHA256 = Inr ''x''\<rparr>"
      and sys = "RealSystem scriptsSucceed" and perm = 420 and p = "''/home/user/b''"
      and actualPerm = 384 and umask = 18 and s = emptyWorld]
    TargetStateFile_Apply_calls [where
      actualContents = "\<lparr>Contents = Inr ''x'', ContentsSHA256 = Inr (scenarioHash ''x'')\<rparr>"
      and h = "''x''" and t = "\<lparr>Contents = Inr ''y'', ContentsSHA256 = Inr ''y''\<rparr>"
      and sys = "RealSystem scriptsSucceed" and perm = 420 and p = "''/home/user/b''"
      and actualPerm = 384 and umask = 18 and s = emptyWorld and h' = "''y''"
      and contents = "''y''"]
    h1 h2 h3 h4
  show ?thesis by simp
qed

text \<open>
  A file with other contents is rewritten by \<open>WriteFile\<close> alone: no \<open>RemoveAll\<close> is
  issued before it.
\<close>

theorem TargetStateFile_Apply_no_removal_counterexample:
  "snd (snd (TargetStateFile_Apply (RealSystem scriptsSucceed)
        \<lparr>Contents = Inr ''y'', ContentsSHA256 = Inr (scenarioHash ''y'')\<rparr> 420
        (ActualStateFile ''/home/user/b'' 384 \<lparr>Contents = Inr ''x'', ContentsSHA256 = Inr (scenarioHash ''x'')\<rparr>)
        18 (emptyWorld\<lparr>files := [''/home/user/b'' \<mapsto> NodeFile 384 ''x'']\<rparr>)))
   = [CallWriteFile ''/home/user/b'' ''y'' 420]"
  by (simp add: TargetStateFile_Apply_def scenario_defs real_defs m_defs)

text \<open>
  C4, as amended: parsing ignores the first line and maps every later line that
  matches the pattern to an entry from field name to value (a later line replaces an
  earlier one with the same name); it fails if and only if some line after the first
  --- blank or not --- does not match the pattern, or the line scanner fails on a
  line that does not fit its buffer.
\<close>

theorem parseKeyPassXCOutput_fails_iff:
  "(snd (parseKeyPassXCOutput output) \<noteq> None \<longleftrightarrow>
      (\<exists>line \<in> set (drop 1 (fst (scanLines output))). FindStringSubmatch line = None)
      \<or> snd (scanLines output) \<noteq> None)
   \<and> ((\<forall>line \<in> set (drop 1 (fst (scanLines output))). FindStringSubmatch line \<noteq> None) \<longrightarrow>
      fst (parseKeyPassXCOutput output) =
        Some (map_of (rev (List.map_filter FindStringSubmatch (drop 1 (fst (scanLines output)))))))"
proof -
  obtain tokens scanErr where sc: "scanLines output = (tokens, scanErr)" by (cases "scanLines output") auto
  define ls where "ls = drop 1 tokens"
  have fails: "(\<exists>e. parseLines ls Map.empty = Inl e) \<longleftrightarrow> (\<exists>l \<in> set ls. FindStringSubmatch l = None)"
    by (rule parseLines_fails)
  show ?thesis
  proof (cases "parseLines ls Map.empty")
    case (Inl e)
    with fails have bad: "\<exists>l \<in> set ls. FindStringSubmatch l = None" by blast
    then have "\<not> (\<forall>l \<in> set ls. FindStringSubmatch l \<noteq> None)" by blast
    with bad Inl show ?thesis
      unfolding parse_unfold [OF sc] sc fst_conv snd_conv ls_def [symmetric] by simp
  next
    case (Inr data)
    with fails have all: "\<forall>l \<in> set ls. FindStringSubmatch l \<noteq> None" by auto
    then have nobad: "\<not> (\<exists>l \<in> set ls. FindStringSubmatch l = None)" by blast
    from parseLines_ok [OF all, of Map.empty] Inr
    have "data = map_of (rev (List.map_filter FindStringSubmatch ls))" by simp
    with nobad all Inr show ?thesis
      unfolding parse_unfold [OF sc] sc fst_conv snd_conv ls_def [symmetric] by auto
  qed
qed

text \<open>
  An output of three lines, the first ending in a carriage return and the last
  without a line feed.
\<close>

theorem parseKeyPassXCOutput_fails_iff_witness:
  "drop 1 (fst (scanLines scenarioOutput)) = [''UserName: bob'', ''URL: http://x'']
   \<and> snd (scanLines scenarioOutput) = None
   \<and> FindStringSubmatch ''UserName: bob'' = Some (''UserName'', ''bob'')
   \<and> FindStringSubmatch ''URL: http://x'' = Some (''URL'', ''http://x'')
   \<and> snd (parseKeyPassXCOutput scenarioOutput) = None
   \<and> fst (parseKeyPassXCOutput scenarioOutput)
       = Some (map_of [(''URL'', ''http://x''), (''UserName'', ''bob'')])"
proof -
  have h1: "scanLines scenarioOutput = ([''Title: db'', ''UserName: bob'', ''URL: http://x''], None)"
    by (simp add: scenarioOutput_def scanLines.simps MaxScanTokenSize_def dropCR_def Let_def)
  have h2: "FindStringSubmatch ''UserName: bob'' = Some (''UserName'', ''bob'')"
    and h3: "FindStringSubmatch ''URL: http://x'' = Some (''URL'', ''http://x'')"
    by (simp_all add: FindStringSubmatch_def)
  from parseKeyPassXCOutput_fails_iff [of scenarioOutput] h1 h2 h3
  show ?thesis by (simp add: List.map_filter_simps)
qed

text \<open>
  A title followed by one blank line: no line after the first is non-blank, and
  parsing fails on the blank line.
\<close>

theorem parseKeyPassXCOutput_blank_line_counterexample:
  "drop 1 (fst (scanLines (''Title'' @ [CHR 0x0A, CHR 0x0A]))) = [[]]
   \<and> parseKeyPassXCOutput (''Title'' @ [CHR 0x0A, CHR 0x0A]) = (None, Some (CannotParse []))"
  by (simp add: parseKeyPassXCOutput_def scanLines.simps MaxScanTokenSize_def dropCR_def
        FindStringSubmatch_def Let_def)

text \<open>
  C5: for every byte stream on a standard input that is not a terminal,
  \<open>readPassword\<close> returns the bytes before the first line feed with every carriage
  return removed; at the end of the input without a line feed it returns the bytes
  read (carriage returns removed) when there are any, and the EOF error when there
  are none --- in particular when no byte was read at all; and more than 1024
  password bytes make it fail.
\<close>

theorem readPassword_pipe:
  "(CHR 0x0A \<in> set bs \<and> length (filter (\<lambda>c. c \<noteq> CHR 0x0D) (takeWhile (\<lambda>c. c \<noteq> CHR 0x0A) bs)) \<le> 1024 \<longrightarrow>
      fst (readPassword (Pipe bs final)) = (filter (\<lambda>c. c \<noteq> CHR 0x0D) (takeWhile (\<lambda>c. c \<noteq> CHR 0x0A) bs), None))
   \<and> (CHR 0x0A \<notin> set bs \<and> length (filter (\<lambda>c. c \<noteq> CHR 0x0D) bs) \<le> 1024 \<longrightarrow>
      fst (readPassword (Pipe bs EOF)) =
        (filter (\<lambda>c. c \<noteq> CHR 0x0D) bs, if filter (\<lambda>c. c \<noteq> CHR 0x0D) bs \<noteq> [] then None else Some EOF))
   \<and> fst (readPassword (Pipe [] EOF)) = ([], Some EOF)
   \<and> (length (filter (\<lambda>c. c \<noteq> CHR 0x0D) (takeWhile (\<lambda>c. c \<noteq> CHR 0x0A) bs)) > 1024 \<longrightarrow>
      snd (fst (readPassword (Pipe bs final))) = Some PasswordTooLong)"
  using readLoop_line [of bs "[]" final] readLoop_eof [of bs "[]" EOF] readLoop_too_long [of "[]" bs final]
  by (auto split: prod.splits)

text \<open>
  A line with carriage returns, an input that ends without a line feed, and 1025
  bytes without a line feed.
\<close>

theorem readPassword_pipe_witness:
  "CHR 0x0A \<in> set (''se'' @ [CHR 0x0D] @ ''cret'' @ [CHR 0x0D, CHR 0x0A] @ ''rest'')
   \<and> length (filter (\<lambda>c. c \<noteq> CHR 0x0D) (takeWhile (\<lambda>c. c \<noteq> CHR 0x0A)
        (''se'' @ [CHR 0x0D] @ ''cret'' @ [CHR 0x0D, CHR 0x0A] @ ''rest''))) \<le> 1024
   \<and> fst (readPassword (Pipe (''se'' @ [CHR 0x0D] @ ''cret'' @ [CHR 0x0D, CHR 0x0A] @ ''rest'') EOF))
       = (''secret'', None)
   \<and> CHR 0x0A \<notin> set ''abc'' \<and> length (filter (\<lambda>c. c \<noteq> CHR 0x0D) ''abc'') \<le> 1024
   \<and> fst (readPassword (Pipe ''abc'' EOF)) = (''abc'', None)
   \<and> length (filter (\<lambda>c. c \<noteq> CHR 0x0D) (takeWhile (\<lambda>c. c \<noteq> CHR 0x0A)
        (replicate 1025 (CHR ''a'')))) > 1024
   \<and> snd (fst (readPassword (Pipe (replicate 1025 (CHR ''a'')) EOF))) = Some PasswordTooLong"
proof -
  have h1: "CHR 0x0A \<in> set (''se'' @ [CHR 0x0D] @ ''cret'' @ [CHR 0x0D, CHR 0x0A] @ ''rest'')
     \<and> length (filter (\<lambda>c. c \<noteq> CHR 0x0D) (takeWhile (\<lambda>c. c \<noteq> CHR 0x0A)
        (''se'' @ [CHR 0x0D] @ ''cret'' @ [CHR 0x0D, CHR 0x0A] @ ''rest''))) \<le> 1024"
    by simp
  have h2: "CHR 0x0A \<notin> set ''abc'' \<and> length (filter (\<lambda>c. c \<noteq> CHR 0x0D) ''abc'') \<le> 1024"
    by simp
  have h3: "length (filter (\<lambda>c. c \<noteq> CHR 0x0D) (takeWhile (\<lambda>c. c \<noteq> CHR 0x0A)
        (replicate 1025 (CHR ''a'')))) > 1024"
    by (simp add: takeWhile_replicate)
  from readPassword_pipe [of "''se'' @ [CHR 0x0D] @ ''cret'' @ [CHR 0x0D, CHR 0x0A] @ ''rest''" EOF]
       readPassword_pipe [of "''abc''" EOF]
       readPassword_pipe [of "replicate 1025 (CHR ''a'')" EOF] h1 h2 h3
  show ?thesis by simp
qed

text \<open>
  C6: the listing is the one of the claim below every cleaned destination directory
  other than the root (\<open>runUnmanagedCmd_below_root\<close> above). For the destination
  directory \<open>/\<close> it is not: the walker reaches \<open>/etc\<close>, \<open>TrimDirPrefix\<close> looks for
  the prefix \<open>//\<close> and returns its error, \<open>MustTrimDirPrefix\<close> panics, and the
  command stops at the first entry, where the listing of the claim is the line
  \<open>etc\<close>.
\<close>

theorem runUnmanagedCmd_root_destination_panics:
  "runUnmanagedCmd ''/'' (\<lambda>name. False) (\<lambda>name. False) (Tree [] True [Tree ''etc'' False []])
       = Inl (NoDirPrefix ''/etc'' ''/'')
   \<and> TrimDirPrefix ''/etc'' ''/'' = Inl (NoDirPrefix ''/etc'' ''/'')
   \<and> pathJoin ''/'' ''etc'' = ''/etc''
   \<and> unmanagedListing (\<lambda>name. False) (\<lambda>name. False) (Tree [] True [Tree ''etc'' False []])
       = ''etc'' @ [CHR 0x0A]"
  by (simp add: runUnmanagedCmd_def unmanagedWalkFn_def TrimDirPrefix_def HasPrefix_def
        pathJoin_def Clean_def unmanagedListing_def walkedBelow_def)

text \<open>
  C7: for every verify run in which the dry-run apply pass itself succeeds, the
  command returns \<open>nil\<close> (exit code zero) if the dry-run backend reports no
  modification, and \<open>ErrExitCode 1\<close> (exit code 1) if it reports one.
\<close>

theorem runVerifyCmd_exit_code:
  "fst (applyArgs dryRunSystem) = None \<Longrightarrow>
   runVerifyCmd applyArgs Modified dryRunSystem =
     (if Modified (snd (applyArgs dryRunSystem)) then Some (ErrExitCode 1) else None)"
  by (cases "applyArgs dryRunSystem") (simp add: runVerifyCmd_def)

text \<open>
  A pass that modifies, and a pass that does not.
\<close>

theorem runVerifyCmd_exit_code_witness:
  "fst ((\<lambda>modified. (None, True)) False) = (None :: error option)
   \<and> runVerifyCmd (\<lambda>modified. (None, True)) (\<lambda>modified. modified) False = Some (ErrExitCode 1)
   \<and> fst ((\<lambda>modified. (None, modified)) False) = (None :: error option)
   \<and> runVerifyCmd (\<lambda>modified. (None, modified)) (\<lambda>modified. modified) False = None"
proof -
  have h1: "fst ((\<lambda>modified. (None, True)) False) = (None :: error option)"
    and h2: "fst ((\<lambda>modified. (None, modified)) False) = (None :: error option)" by simp_all
  from runVerifyCmd_exit_code [of "\<lambda>modified. (None, True)" False "\<lambda>modified. modified", OF h1]
       runVerifyCmd_exit_code [of "\<lambda>modified. (None, modified)" False "\<lambda>modified. modified", OF h2]
  show ?thesis by simp
qed

text \<open>
  C8: for all permissions \<open>p\<close>, \<open>p1\<close>, \<open>p2\<close> and every umask \<open>u\<close>,
  \<open>umaskPermEqual p p u\<close> is true, and \<open>umaskPermEqual p1 p2 0\<close> is true if and
  only if \<open>p1 = p2\<close>. It is proved for every 32-bit mode, so in particular for the
  12-bit permissions.
\<close>

theorem umaskPermEqual_refl_and_zero_umask:
  "umaskPermEqual p p u \<and> (umaskPermEqual p1 p2 0 \<longleftrightarrow> p1 = p2)"
  by (simp add: umaskPermEqual_def)

text \<open>
  C9, as amended: once an invocation of the credential tool has read a non-empty
  password successfully, every later invocation in the same process pipes the cached
  password to the tool and does not read a password again: the process state, with
  its standard input and its count of password reads, stays as that invocation left
  it.
\<close>

theorem password_cached_after_nonempty_read:
  assumes "keePassXCPassword pr = []"
      and "readPassword (stdin pr) = ((password, None), rest)"
      and "password \<noteq> []"
      and "runKeePassXCCLICommand cmdOutput name args pr = (r, pr')"
  shows "r = cmdOutput name args (password @ [CHR 0x0A])
     \<and> keePassXCPassword pr' = password
     \<and> passwordReads pr' = passwordReads pr + 1
     \<and> runCommands cmdOutput cmds pr' =
         (map (\<lambda>(name, args). cmdOutput name args (password @ [CHR 0x0A])) cmds, pr')"
proof -
  from assms(1,2,4) have r: "r = cmdOutput name args (password @ [CHR 0x0A])"
    and pr': "pr' = pr\<lparr>stdin := rest, passwordReads := passwordReads pr + 1, keePassXCPassword := password\<rparr>"
    by (auto simp: runKeePassXCCLICommand_def)
  from pr' assms(3) have "keePassXCPassword pr' \<noteq> []" by simp
  from cached_commands [OF this, of cmdOutput cmds] r pr' show ?thesis by simp
qed

text \<open>
  The password \<open>secret\<close> is read once, and two later invocations reuse it.
\<close>

theorem password_cached_after_nonempty_read_witness:
  "keePassXCPassword (scenarioProcess (''secret'' @ [CHR 0x0A])) = []
   \<and> readPassword (stdin (scenarioProcess (''secret'' @ [CHR 0x0A]))) = ((''secret'', None), Pipe [] EOF)
   \<and> ''secret'' \<noteq> []
   \<and> fst (runKeePassXCCLICommand echo ''keepassxc-cli'' [''show'']
        (scenarioProcess (''secret'' @ [CHR 0x0A]))) = Inr (''secret'' @ [CHR 0x0A])
   \<and> passwordReads (snd (runKeePassXCCLICommand echo ''keepassxc-cli'' [''show'']
        (scenarioProcess (''secret'' @ [CHR 0x0A])))) = 1
   \<and> runCommands echo [(''keepassxc-cli'', [''show'', ''a'']), (''keepassxc-cli'', [''show'', ''b''])]
        (snd (runKeePassXCCLICommand echo ''keepassxc-cli'' [''show''] (scenarioProcess (''secret'' @ [CHR 0x0A]))))
       = ([Inr (''secret'' @ [CHR 0x0A]), Inr (''secret'' @ [CHR 0x0A])],
          snd (runKeePassXCCLICommand echo ''keepassxc-cli'' [''show''] (scenarioProcess (''secret'' @ [CHR 0x0A]))))"
proof -
  have h1: "keePassXCPassword (scenarioProcess (''secret'' @ [CHR 0x0A])) = []"
    by (simp add: scenarioProcess_def)
  have h2: "readPassword (stdin (scenarioProcess (''secret'' @ [CHR 0x0A]))) = ((''secret'', None), Pipe [] EOF)"
    by (simp add: scenarioProcess_def)
  have h3: "''secret'' \<noteq> []" by simp
  have h4: "runKeePassXCCLICommand echo ''keepassxc-cli'' [''show''] (scenarioProcess (''secret'' @ [CHR 0x0A]))
      = (fst (runKeePassXCCLICommand echo ''keepassxc-cli'' [''show''] (scenarioProcess (''secret'' @ [CHR 0x0A]))),
         snd (runKeePassXCCLICommand echo ''keepassxc-cli'' [''show''] (scenarioProcess (''secret'' @ [CHR 0x0A]))))"
    by simp
  from password_cached_after_nonempty_read [OF h1 h2 h3 h4,
      of "[(''keepassxc-cli'', [''show'', ''a'']), (''keepassxc-cli'', [''show'', ''b''])]"]
    h1 h2 h3
  show ?thesis by (simp add: echo_def scenarioProcess_def)
qed

text \<open>
  An empty line is read as the empty password with no error; it is not cached, and
  the next invocation reads a password again.
\<close>

theorem empty_password_not_cached_counterexample:
  "readPassword (stdin (scenarioProcess [CHR 0x0A, CHR 0x0A])) = (([], None), Pipe [CHR 0x0A] EOF)
   \<and> (case runKeePassXCCLICommand echo ''keepassxc-cli'' [''show''] (scenarioProcess [CHR 0x0A, CHR 0x0A]) of
        (r, pr') \<Rightarrow>
          (r, passwordReads pr',
           passwordReads (snd (runKeePassXCCLICommand echo ''keepassxc-cli'' [''show''] pr'))))
       = (Inr [CHR 0x0A], 1, 2)"
  by (simp add: runKeePassXCCLICommand_def scenarioProcess_def echo_def)

text \<open>
  C10: \<open>TargetStateSymlink.Equal\<close> returns the error of reading the actual symlink's
  link target; when the target's own lazy link name fails and the actual one is
  read, it returns \<open>(false, nil)\<close>, which is what it returns for a link name that
  differs.
\<close>

theorem TargetStateSymlink_Equal_errors:
  "TargetStateSymlink_Equal t (ActualStateSymlink p \<lparr>Linkname = Inl e\<rparr>) u = (False, Some e)
   \<and> TargetStateSymlink_Equal \<lparr>Linkname = Inl e\<rparr> (ActualStateSymlink p \<lparr>Linkname = Inr l\<rparr>) u
       = (False, None)
   \<and> TargetStateSymlink_Equal \<lparr>Linkname = Inr l'\<rparr> (ActualStateSymlink p \<lparr>Linkname = Inr l\<rparr>) u
       = (if l = l' then (True, None) else (False, None))"
  by (simp add: TargetStateSymlink_Equal_def)

end
